theory Spec2Isabelle
  imports Main
begin

section \<open>Exact Online invoices: \<^verbatim>\<open>exactonline/elements/invoice.py\<close>\<close>

text \<open>
  The module holds one class, \<^verbatim>\<open>ExactInvoice\<close>, with two methods that do work:
  \<^verbatim>\<open>assemble()\<close> builds the request dictionary of an invoice and \<^verbatim>\<open>commit()\<close>
  submits it through the API object \<^verbatim>\<open>self._api\<close>. The getters of the class are
  abstract and supplied by the application. The code is Python 2 (it uses
  \<^verbatim>\<open>basestring\<close> and \<^verbatim>\<open>unicode\<close>).
\<close>

subsection \<open>Exceptions\<close>

text \<open>
  Every exception the two methods can raise or let through is a value.
  \<^verbatim>\<open>RemoteFailure\<close> stands for any other exception of a collaborator.
\<close>

datatype error =
    ObjectDoesNotExist
  | ExactOnlineError string
  | NotImplementedError string
  | KeyError string
  | ValueError string
  | UnboundLocalError string
  | RemoteFailure string

subsection \<open>Python values that the methods handle\<close>

text \<open>Decimal numerals of natural numbers, as \<^verbatim>\<open>str\<close> and \<^verbatim>\<open>%d\<close> print them.\<close>

definition digit_char :: "nat \<Rightarrow> char" where
  "digit_char d = ''0123456789'' ! d"

fun digits :: "nat \<Rightarrow> string" where
  "digits n = (if n < 10 then [digit_char n] else digits (n div 10) @ [digit_char (n mod 10)])"

declare digits.simps [simp del]

definition str_int :: "int \<Rightarrow> string" where
  "str_int i = (if i < 0 then ''-'' @ digits (nat (- i)) else digits (nat i))"

definition zfill :: "nat \<Rightarrow> string \<Rightarrow> string" where
  "zfill w s = replicate (w - length s) (CHR ''0'') @ s"

text \<open>
  A finite \<^verbatim>\<open>decimal.Decimal\<close>: the sign bit, the coefficient and the exponent
  (\<^verbatim>\<open>_sign\<close>, \<^verbatim>\<open>_int\<close>, \<^verbatim>\<open>_exp\<close>); \<^verbatim>\<open>_int\<close> is the digit string of the
  coefficient. Its value is \<open>(-1)^sign * coefficient * 10^exponent\<close>.
\<close>

datatype decimal = Decimal (dec_sign: bool) (dec_int: nat) (dec_exp: int)

text \<open>
  \<^verbatim>\<open>str(d)\<close> of a finite Decimal is \<^verbatim>\<open>Decimal.__str__\<close> of the standard library
  (the to-scientific-string conversion, with the default context, which writes the
  exponent with a capital E):
  \<^verbatim>\<open>
    sign = ['', '-'][self._sign]
    leftdigits = self._exp + len(self._int)
    if self._exp <= 0 and leftdigits > -6:
        dotplace = leftdigits
    else:
        dotplace = 1
    if dotplace <= 0:
        intpart = '0'
        fracpart = '.' + '0'*(-dotplace) + self._int
    elif dotplace >= len(self._int):
        intpart = self._int+'0'*(dotplace-len(self._int))
        fracpart = ''
    else:
        intpart = self._int[:dotplace]
        fracpart = '.' + self._int[dotplace:]
    if leftdigits == dotplace:
        exp = ''
    else:
        exp = 'E' + "%+d" % (leftdigits-dotplace)
    return sign + intpart + fracpart + exp
  \<close>
\<close>

definition str_decimal :: "decimal \<Rightarrow> string" where
  "str_decimal d =
     (let sign = (if dec_sign d then ''-'' else '''');
          int_digits = digits (dec_int d);
          len = int (length int_digits);
          leftdigits = dec_exp d + len;
          dotplace = (if dec_exp d \<le> 0 \<and> leftdigits > - 6 then leftdigits else 1);
          intpart =
            (if dotplace \<le> 0 then ''0''
             else if dotplace \<ge> len
               then int_digits @ replicate (nat (dotplace - len)) (CHR ''0'')
             else take (nat dotplace) int_digits);
          fracpart =
            (if dotplace \<le> 0
               then ''.'' @ replicate (nat (- dotplace)) (CHR ''0'') @ int_digits
             else if dotplace \<ge> len then ''''
             else ''.'' @ drop (nat dotplace) int_digits);
          exp =
            (if leftdigits = dotplace then ''''
             else ''E'' @ (if leftdigits - dotplace < 0 then ''-'' else ''+'')
                  @ digits (nat \<bar>leftdigits - dotplace\<bar>))
      in sign @ intpart @ fracpart @ exp)"

text \<open>
  A \<^verbatim>\<open>datetime.date\<close>. Python keeps \<open>1 \<le> year \<le> 9999\<close>, \<open>1 \<le> month \<le> 12\<close> and the
  day within the month.
\<close>

record date =
  year :: nat
  month :: nat
  day :: nat

definition days_in_month :: "nat \<Rightarrow> nat \<Rightarrow> nat" where
  "days_in_month y m =
     (if m = 2 then (if y mod 4 = 0 \<and> (y mod 100 \<noteq> 0 \<or> y mod 400 = 0) then 29 else 28)
      else if m = 4 \<or> m = 6 \<or> m = 9 \<or> m = 11 then 30 else 31)"

definition valid_date :: "date \<Rightarrow> bool" where
  "valid_date d \<longleftrightarrow>
     1 \<le> year d \<and> year d \<le> 9999 \<and> 1 \<le> month d \<and> month d \<le> 12 \<and>
     1 \<le> day d \<and> day d \<le> days_in_month (year d) (month d)"

text \<open>
  \<^verbatim>\<open>date.strftime(format)\<close> for the directives the module uses. A date has no time
  of day, so \<^verbatim>\<open>%H\<close>, \<^verbatim>\<open>%M\<close> and \<^verbatim>\<open>%S\<close> print \<^verbatim>\<open>00\<close>. In Python 2 the method
  raises \<^verbatim>\<open>ValueError\<close> for a year before 1900.
\<close>

definition directive :: "date \<Rightarrow> char \<Rightarrow> string" where
  "directive d c =
     (if c = CHR ''Y'' then zfill 4 (digits (year d))
      else if c = CHR ''m'' then zfill 2 (digits (month d))
      else if c = CHR ''d'' then zfill 2 (digits (day d))
      else if c = CHR ''H'' \<or> c = CHR ''M'' \<or> c = CHR ''S'' then ''00''
      else if c = CHR ''%'' then ''%''
      else [CHR ''%'', c])"

fun expand_format :: "date \<Rightarrow> string \<Rightarrow> string" where
  "expand_format d [] = []"
| "expand_format d [c] = [c]"
| "expand_format d (c # f # fs) =
     (if c = CHR ''%'' then directive d f @ expand_format d fs
      else c # expand_format d (f # fs))"

definition strftime :: "date \<Rightarrow> string \<Rightarrow> error + string" where
  "strftime d fmt =
     (if year d < 1900
      then Inl (ValueError (''year='' @ digits (year d) @ '' is before 1900''))
      else Inr (expand_format d fmt))"

text \<open>
  Values of no fixed type: what the remote system hands out as identifiers and records,
  and what the request dictionary holds. A dictionary is a map from its keys.
\<close>

datatype pyval =
    PNone
  | PBool bool
  | PInt int
  | PStr string
  | PList "pyval list"
  | PDict "string \<Rightarrow> pyval option"

type_synonym pydict = "string \<Rightarrow> pyval option"

text \<open>Python's truth value of an object, as \<^verbatim>\<open>if exact_guid:\<close> tests it.\<close>

fun truthy :: "pyval \<Rightarrow> bool" where
  "truthy PNone = False"
| "truthy (PBool b) = b"
| "truthy (PInt i) = (i \<noteq> 0)"
| "truthy (PStr s) = (s \<noteq> [])"
| "truthy (PList xs) = (xs \<noteq> [])"
| "truthy (PDict m) = (m \<noteq> Map.empty)"

subsection \<open>The data model\<close>

text \<open>
  A ledger line is the dictionary that \<^verbatim>\<open>get_ledger_lines()\<close> documents: the ledger
  code, the VAT percentage, the amount without VAT and a description.
\<close>

record ledger_line =
  code :: string
  vat_percentage :: int
  total_amount_excl_vat :: decimal
  description :: string

text \<open>One record of \<^verbatim>\<open>ledgeraccounts.filter\<close>: its keys \<^verbatim>\<open>Code\<close> and \<^verbatim>\<open>ID\<close>.\<close>

record ledger_account =
  account_Code :: string
  account_ID :: pyval

text \<open>
  The collaborators act on the remote system, whose state is a type parameter \<open>'w\<close>.
  A call takes the remote state and gives back a result or an exception, and the new
  remote state. The customer object offers \<^verbatim>\<open>get_name()\<close>, \<^verbatim>\<open>get_guid()\<close> and
  \<^verbatim>\<open>commit()\<close>; the API object offers \<^verbatim>\<open>invoices.get\<close>, \<^verbatim>\<open>invoices.create\<close>,
  \<^verbatim>\<open>invoices.update\<close> and \<^verbatim>\<open>ledgeraccounts.filter\<close>.
\<close>

record 'w customer =
  customer_get_name :: string
  customer_get_guid :: "'w \<Rightarrow> (error + pyval) \<times> 'w"
  customer_commit :: "'w \<Rightarrow> (error + unit) \<times> 'w"

record 'w api =
  invoices_get :: "string \<Rightarrow> 'w \<Rightarrow> (error + pydict) \<times> 'w"
  invoices_create :: "pydict \<Rightarrow> 'w \<Rightarrow> (error + pyval) \<times> 'w"
  invoices_update :: "pyval \<Rightarrow> pydict \<Rightarrow> 'w \<Rightarrow> (error + pyval) \<times> 'w"
  ledgeraccounts_filter :: "string set \<Rightarrow> 'w \<Rightarrow> (error + ledger_account list) \<times> 'w"

text \<open>The getters that a subclass of \<^verbatim>\<open>ExactInvoice\<close> supplies.\<close>

record 'w invoice =
  get_customer :: "'w customer"
  get_created_date :: date
  get_exact_journal :: string
  get_ledger_lines :: "ledger_line list"
  get_invoice_number :: string
  get_total_amount_incl_vat :: decimal
  get_total_vat :: decimal
  hint_exact_invoice_number :: pyval

text \<open>
  What a method does to the outside is the sequence of calls it makes and of warnings
  it emits. The state threaded through the methods is the remote state and that
  sequence.
\<close>

datatype event =
    Customer_get_guid
  | Customer_commit
  | Invoices_get string
  | Invoices_create pydict
  | Invoices_update pyval pydict
  | Ledgeraccounts_filter "string set"
  | Warning string

record 'w state =
  remote :: 'w
  trace :: "event list"

definition perform :: "event \<Rightarrow> ('w \<Rightarrow> 'a \<times> 'w) \<Rightarrow> 'w state \<Rightarrow> 'a \<times> 'w state" where
  "perform ev call s =
     (case call (remote s) of (r, w) \<Rightarrow> (r, \<lparr>remote = w, trace = trace s @ [ev]\<rparr>))"

definition warn :: "string \<Rightarrow> 'w state \<Rightarrow> 'w state" where
  "warn msg s = s\<lparr>trace := trace s @ [Warning msg]\<rparr>"

subsection \<open>\<^verbatim>\<open>ExactInvoice.get_guid\<close>\<close>

text \<open>
  \<^verbatim>\<open>
    exact_invoice = self._api.invoices.get(invoice_number=self.get_invoice_number())
    return exact_invoice['EntryID']
  \<close>
\<close>

definition get_guid :: "'w api \<Rightarrow> 'w invoice \<Rightarrow> 'w state \<Rightarrow> (error + pyval) \<times> 'w state" where
  "get_guid api self s =
     (case perform (Invoices_get (get_invoice_number self))
             (invoices_get api (get_invoice_number self)) s of
        (Inl e, s1) \<Rightarrow> (Inl e, s1)
      | (Inr exact_invoice, s1) \<Rightarrow>
          (case exact_invoice ''EntryID'' of
             None \<Rightarrow> (Inl (KeyError ''EntryID''), s1)
           | Some entry_id \<Rightarrow> (Inr entry_id, s1)))"

subsection \<open>\<^verbatim>\<open>ExactInvoice.assemble\<close>\<close>

text \<open>
  "Make sure the customer exists":
  \<^verbatim>\<open>
    try:
        customer_guid = customer.get_guid()
    except ObjectDoesNotExist:
        customer.commit()
        customer_guid = customer.get_guid()
  \<close>
\<close>

definition ensure_customer :: "'w customer \<Rightarrow> 'w state \<Rightarrow> (error + pyval) \<times> 'w state" where
  "ensure_customer customer s =
     (case perform Customer_get_guid (customer_get_guid customer) s of
        (Inr customer_guid, s1) \<Rightarrow> (Inr customer_guid, s1)
      | (Inl e, s1) \<Rightarrow>
          if e = ObjectDoesNotExist then
            (case perform Customer_commit (customer_commit customer) s1 of
               (Inl e2, s2) \<Rightarrow> (Inl e2, s2)
             | (Inr u, s2) \<Rightarrow> perform Customer_get_guid (customer_get_guid customer) s2)
          else (Inl e, s1))"

text \<open>
  "Cache ledger codes to ledger GUIDs": the dictionary built from the records of the
  lookup, a later record replacing an earlier one with the same code.
\<close>

definition ledger_ids_of :: "ledger_account list \<Rightarrow> pydict" where
  "ledger_ids_of rs = foldl (\<lambda>m r. m(account_Code r \<mapsto> account_ID r)) Map.empty rs"

text \<open>
  \<^verbatim>\<open>
    if ledger_lines:
        assert isinstance(ledger_lines[0]['code'], basestring)
        ledger_ids = self._api.ledgeraccounts.filter(
            code__in=set([i['code'] for i in ledger_lines]))
        ledger_ids = dict((unicode(i['Code']), i['ID']) for i in ledger_ids)
  \<close>
  The lookup runs under \<^verbatim>\<open>if ledger_lines:\<close>, so without lines the name
  \<^verbatim>\<open>ledger_ids\<close> is unbound (\<open>None\<close> below). The codes are strings, so the
  assertion holds, and \<^verbatim>\<open>unicode\<close> leaves a code as it is.
\<close>

definition fetch_ledger_ids ::
  "'w api \<Rightarrow> ledger_line list \<Rightarrow> 'w state \<Rightarrow> (error + pydict option) \<times> 'w state" where
  "fetch_ledger_ids api ledger_lines s =
     (if ledger_lines \<noteq> [] then
        (case perform (Ledgeraccounts_filter (set (map code ledger_lines)))
                (ledgeraccounts_filter api (set (map code ledger_lines))) s of
           (Inl e, s1) \<Rightarrow> (Inl e, s1)
         | (Inr rs, s1) \<Rightarrow> (Inr (Some (ledger_ids_of rs)), s1))
      else (Inr None, s))"

text \<open>
  The body of the loop over the ledger lines: the ledger identifier first, then the
  VAT code, then the dictionary of the line.
\<close>

definition assemble_line :: "pydict option \<Rightarrow> ledger_line \<Rightarrow> error + pydict" where
  "assemble_line ledger_ids ledger_line =
     (case ledger_ids of
        None \<Rightarrow> Inl (UnboundLocalError ''ledger_ids'')
      | Some ids \<Rightarrow>
          (case ids (code ledger_line) of
             None \<Rightarrow>
               Inl (ExactOnlineError
                      (''Cannot submit invoice with ledger code '' @ code ledger_line))
           | Some ledger_id \<Rightarrow>
               if vat_percentage ledger_line = 0 then
                 Inr [''AmountDC'' \<mapsto> PStr (str_decimal (total_amount_excl_vat ledger_line)),
                      ''AmountFC'' \<mapsto> PStr (str_decimal (total_amount_excl_vat ledger_line)),
                      ''Description'' \<mapsto> PStr (description ledger_line),
                      ''GLAccount'' \<mapsto> ledger_id,
                      ''VATCode'' \<mapsto> PStr ''0  '']
               else if vat_percentage ledger_line = 21 then
                 Inr [''AmountDC'' \<mapsto> PStr (str_decimal (total_amount_excl_vat ledger_line)),
                      ''AmountFC'' \<mapsto> PStr (str_decimal (total_amount_excl_vat ledger_line)),
                      ''Description'' \<mapsto> PStr (description ledger_line),
                      ''GLAccount'' \<mapsto> ledger_id,
                      ''VATCode'' \<mapsto> PStr ''2  '']
               else
                 Inl (NotImplementedError
                        (''Unknown VAT: '' @ str_int (vat_percentage ledger_line)))))"

text \<open>
  The loop appends to the list stored under \<^verbatim>\<open>SalesEntryLines\<close>; the list is the
  accumulator here. An exception leaves the loop and the method.
\<close>

fun assemble_lines :: "pydict option \<Rightarrow> ledger_line list \<Rightarrow> pyval list \<Rightarrow> error + pyval list" where
  "assemble_lines ledger_ids [] sales_entry_lines = Inr sales_entry_lines"
| "assemble_lines ledger_ids (ledger_line # rest) sales_entry_lines =
     (case assemble_line ledger_ids ledger_line of
        Inl e \<Rightarrow> Inl e
      | Inr line \<Rightarrow> assemble_lines ledger_ids rest (sales_entry_lines @ [PDict line]))"

text \<open>
  The method, in the order of its statements: the getters, the description (which
  formats the date with \<^verbatim>\<open>'%m-%Y'\<close> before any call is made), the customer, the
  dictionary \<^verbatim>\<open>data\<close>, the ledger lookup and the loop over the ledger lines. The
  getters are read as values; \<^verbatim>\<open>get_ledger_lines()\<close> is called twice and gives the
  same list both times.
\<close>

definition assemble :: "'w api \<Rightarrow> 'w invoice \<Rightarrow> 'w state \<Rightarrow> (error + pydict) \<times> 'w state" where
  "assemble api self s =
     (let invoice_number = get_invoice_number self;
          customer = get_customer self;
          total_amount_incl_vat = get_total_amount_incl_vat self;
          total_vat = get_total_vat self;
          created_date = get_created_date self
      in case strftime created_date ''%m-%Y'' of
           Inl e \<Rightarrow> (Inl e, s)
         | Inr month_year \<Rightarrow>
             (let description =
                    invoice_number @ '' - '' @ customer_get_name customer @ '', '' @ month_year
              in case ensure_customer customer s of
                   (Inl e, s1) \<Rightarrow> (Inl e, s1)
                 | (Inr customer_guid, s1) \<Rightarrow>
                     (case strftime created_date ''%Y-%m-%dT%H:%M:%SZ'' of
                        Inl e \<Rightarrow> (Inl e, s1)
                      | Inr entry_date \<Rightarrow>
                          (let data =
                                 [''AmountDC'' \<mapsto> PStr (str_decimal total_amount_incl_vat),
                                  ''AmountFC'' \<mapsto> PStr (str_decimal total_amount_incl_vat),
                                  ''EntryDate'' \<mapsto> PStr entry_date,
                                  ''Customer'' \<mapsto> customer_guid,
                                  ''Description'' \<mapsto> PStr description,
                                  ''Journal'' \<mapsto> PStr (get_exact_journal self),
                                  ''ReportingPeriod'' \<mapsto> PInt (int (month created_date)),
                                  ''ReportingYear'' \<mapsto> PInt (int (year created_date)),
                                  ''SalesEntryLines'' \<mapsto> PList [],
                                  ''VATAmountDC'' \<mapsto> PStr (str_decimal total_vat),
                                  ''VATAmountFC'' \<mapsto> PStr (str_decimal total_vat),
                                  ''YourRef'' \<mapsto> PStr invoice_number,
                                  ''InvoiceNumber'' \<mapsto> hint_exact_invoice_number self]
                           in case fetch_ledger_ids api (get_ledger_lines self) s1 of
                                (Inl e, s2) \<Rightarrow> (Inl e, s2)
                              | (Inr ledger_ids, s2) \<Rightarrow>
                                  (case assemble_lines ledger_ids (get_ledger_lines self) [] of
                                     Inl e \<Rightarrow> (Inl e, s2)
                                   | Inr sales_entry_lines \<Rightarrow>
                                       (Inr (data(''SalesEntryLines'' \<mapsto> PList sales_entry_lines)),
                                        s2))))))"

subsection \<open>\<^verbatim>\<open>ExactInvoice.commit\<close>\<close>

text \<open>
  \<^verbatim>\<open>
    try:
        exact_guid = self.get_guid()
    except ObjectDoesNotExist:
        exact_guid = None
    data = self.assemble()
    if exact_guid:
        salesentrylines = data.pop('SalesEntryLines')
        ret = self._api.invoices.update(exact_guid, data)
        warn('PUT of SalesEntry SalesEntryLines is not supported yet!')
        del salesentrylines
    else:
        ret = self._api.invoices.create(data)
    return ret
  \<close>
\<close>

definition guid_or_none :: "'w api \<Rightarrow> 'w invoice \<Rightarrow> 'w state \<Rightarrow> (error + pyval) \<times> 'w state" where
  "guid_or_none api self s =
     (case get_guid api self s of
        (Inr exact_guid, s1) \<Rightarrow> (Inr exact_guid, s1)
      | (Inl e, s1) \<Rightarrow> if e = ObjectDoesNotExist then (Inr PNone, s1) else (Inl e, s1))"

definition submit :: "'w api \<Rightarrow> pyval \<Rightarrow> pydict \<Rightarrow> 'w state \<Rightarrow> (error + pyval) \<times> 'w state" where
  "submit api exact_guid data s =
     (if truthy exact_guid then
        (case data ''SalesEntryLines'' of
           None \<Rightarrow> (Inl (KeyError ''SalesEntryLines''), s)
         | Some salesentrylines \<Rightarrow>
             (case perform (Invoices_update exact_guid (data(''SalesEntryLines'' := None)))
                     (invoices_update api exact_guid (data(''SalesEntryLines'' := None))) s of
                (Inl e, s1) \<Rightarrow> (Inl e, s1)
              | (Inr ret, s1) \<Rightarrow>
                  (Inr ret, warn ''PUT of SalesEntry SalesEntryLines is not supported yet!'' s1)))
      else perform (Invoices_create data) (invoices_create api data) s)"

definition commit :: "'w api \<Rightarrow> 'w invoice \<Rightarrow> 'w state \<Rightarrow> (error + pyval) \<times> 'w state" where
  "commit api self s =
     (case guid_or_none api self s of
        (Inl e, s1) \<Rightarrow> (Inl e, s1)
      | (Inr exact_guid, s1) \<Rightarrow>
          (case assemble api self s1 of
             (Inl e, s2) \<Rightarrow> (Inl e, s2)
           | (Inr data, s2) \<Rightarrow> submit api exact_guid data s2))"

subsection \<open>Notions used to state the properties\<close>

text \<open>The events a method adds to the trace when it runs from the state \<open>s\<close>.\<close>

definition events_of :: "('w state \<Rightarrow> 'a \<times> 'w state) \<Rightarrow> 'w state \<Rightarrow> event list" where
  "events_of m s = drop (length (trace s)) (trace (snd (m s)))"

text \<open>The two calls that submit an invoice, and the three calls that \<^verbatim>\<open>assemble()\<close> makes.\<close>

fun is_submission :: "event \<Rightarrow> bool" where
  "is_submission (Invoices_create data) = True"
| "is_submission (Invoices_update guid data) = True"
| "is_submission ev = False"

fun is_ledger_lookup :: "event \<Rightarrow> bool" where
  "is_ledger_lookup (Ledgeraccounts_filter codes) = True"
| "is_ledger_lookup ev = False"

text \<open>
  Reading a decimal numeral back. \<open>nat_of_digits\<close> is the number that a string of digits
  denotes. \<open>read_decimal\<close> reads a numeral the way the constructor \<^verbatim>\<open>Decimal(string)\<close>
  does: an optional minus sign, digits, an optional point with digits, an optional
  exponent \<^verbatim>\<open>E\<close> with a sign; the coefficient is the number denoted by the digits
  before and after the point, and the exponent is lowered by the number of digits after
  the point. It is the measure of "exact" below: a string is the exact representation of
  a decimal when it reads back as that decimal.
\<close>

definition is_digit :: "char \<Rightarrow> bool" where
  "is_digit c \<longleftrightarrow> c \<in> set ''0123456789''"

definition digit_val :: "char \<Rightarrow> nat" where
  "digit_val c = length (takeWhile (\<lambda>x. x \<noteq> c) ''0123456789'')"

definition nat_of_digits :: "string \<Rightarrow> nat" where
  "nat_of_digits s = foldl (\<lambda>n c. 10 * n + digit_val c) 0 s"

definition read_exponent :: "string \<Rightarrow> int option" where
  "read_exponent s =
     (case s of
        [] \<Rightarrow> Some 0
      | c # r \<Rightarrow>
          if c \<noteq> CHR ''E'' then None
          else (case r of
                  [] \<Rightarrow> None
                | sg # ds \<Rightarrow>
                    if ds = [] \<or> \<not> list_all is_digit ds then None
                    else if sg = CHR ''+'' then Some (int (nat_of_digits ds))
                    else if sg = CHR ''-'' then Some (- int (nat_of_digits ds))
                    else None))"

definition read_decimal :: "string \<Rightarrow> decimal option" where
  "read_decimal s =
     (let negative = (case s of [] \<Rightarrow> False | c # r \<Rightarrow> c = CHR ''-'');
          body = (if negative then tl s else s);
          intpart = takeWhile is_digit body;
          after_int = dropWhile is_digit body;
          has_point = (case after_int of [] \<Rightarrow> False | c # r \<Rightarrow> c = CHR ''.'');
          fracpart = (if has_point then takeWhile is_digit (tl after_int) else []);
          after_frac = (if has_point then dropWhile is_digit (tl after_int) else after_int)
      in if intpart = [] then None
         else (case read_exponent after_frac of
                 None \<Rightarrow> None
               | Some e \<Rightarrow>
                   Some (Decimal negative (nat_of_digits (intpart @ fracpart))
                           (e - int (length fracpart)))))"

definition exact_decimal_string :: "pyval option \<Rightarrow> decimal \<Rightarrow> bool" where
  "exact_decimal_string v d \<longleftrightarrow>
     (case v of Some (PStr s) \<Rightarrow> s = str_decimal d \<and> read_decimal s = Some d | _ \<Rightarrow> False)"

text \<open>
  The ISO-8601 timestamp of a date at midnight with the zone \<^verbatim>\<open>Z\<close>: twenty
  characters \<^verbatim>\<open>YYYY-MM-DDT00:00:00Z\<close>, whose digit groups denote the year, the month
  and the day.
\<close>

definition iso_midnight_z :: "date \<Rightarrow> string \<Rightarrow> bool" where
  "iso_midnight_z d s \<longleftrightarrow>
     length s = 20 \<and>
     list_all is_digit (take 4 s) \<and> nat_of_digits (take 4 s) = year d \<and>
     s ! 4 = CHR ''-'' \<and>
     list_all is_digit (take 2 (drop 5 s)) \<and> nat_of_digits (take 2 (drop 5 s)) = month d \<and>
     s ! 7 = CHR ''-'' \<and>
     list_all is_digit (take 2 (drop 8 s)) \<and> nat_of_digits (take 2 (drop 8 s)) = day d \<and>
     drop 10 s = ''T00:00:00Z''"

subsection \<open>A small remote system for concrete runs\<close>

text \<open>
  A remote state with at most one customer, a table of invoices by invoice number and a
  table of ledger accounts, and collaborators over it: the customer is found once it has
  been created, an invoice is found when its number is in the table, and the ledger
  lookup returns the accounts whose code is asked for.
\<close>

record world =
  world_customer :: "pyval option"
  world_invoices :: "(string \<times> pydict) list"
  world_accounts :: "ledger_account list"

definition demo_customer :: "world customer" where
  "demo_customer =
     \<lparr>customer_get_name = ''ACME'',
      customer_get_guid =
        (\<lambda>w. case world_customer w of
               None \<Rightarrow> (Inl ObjectDoesNotExist, w)
             | Some g \<Rightarrow> (Inr g, w)),
      customer_commit = (\<lambda>w. (Inr (), w\<lparr>world_customer := Some (PStr ''c-1'')\<rparr>))\<rparr>"

definition demo_api :: "world api" where
  "demo_api =
     \<lparr>invoices_get =
        (\<lambda>n w. case map_of (world_invoices w) n of
                 None \<Rightarrow> (Inl ObjectDoesNotExist, w)
               | Some r \<Rightarrow> (Inr r, w)),
      invoices_create = (\<lambda>data w. (Inr (PDict (data(''EntryID'' \<mapsto> PStr ''e-1''))), w)),
      invoices_update = (\<lambda>g data w. (Inr PNone, w)),
      ledgeraccounts_filter =
        (\<lambda>codes w. (Inr (filter (\<lambda>a. account_Code a \<in> codes) (world_accounts w)), w))\<rparr>"

definition demo_line :: "string \<Rightarrow> int \<Rightarrow> ledger_line" where
  "demo_line c p =
     \<lparr>code = c, vat_percentage = p,
      total_amount_excl_vat = Decimal False 10000 (- 2), description = ''Goods''\<rparr>"

definition demo_invoice :: "ledger_line list \<Rightarrow> world invoice" where
  "demo_invoice ls =
     \<lparr>get_customer = demo_customer,
      get_created_date = \<lparr>year = 2024, month = 3, day = 15\<rparr>,
      get_exact_journal = ''70'',
      get_ledger_lines = ls,
      get_invoice_number = ''INV-001'',
      get_total_amount_incl_vat = Decimal False 12100 (- 2),
      get_total_vat = Decimal False 2100 (- 2),
      hint_exact_invoice_number = PNone\<rparr>"

definition demo_world :: "pyval option \<Rightarrow> (string \<times> pydict) list \<Rightarrow> world" where
  "demo_world c invs =
     \<lparr>world_customer = c, world_invoices = invs,
      world_accounts = [\<lparr>account_Code = ''1234'', account_ID = PStr ''g-1234''\<rparr>]\<rparr>"

definition demo_state :: "pyval option \<Rightarrow> (string \<times> pydict) list \<Rightarrow> world state" where
  "demo_state c invs = \<lparr>remote = demo_world c invs, trace = []\<rparr>"

section \<open>Facts about the methods\<close>

subsection \<open>Digits and dates\<close>

lemma digit_char_props:
  assumes "d < 10"
  shows "is_digit (digit_char d)" and "digit_val (digit_char d) = d"
proof -
  from assms have "d = 0 \<or> d = 1 \<or> d = 2 \<or> d = 3 \<or> d = 4 \<or> d = 5 \<or> d = 6 \<or> d = 7 \<or> d = 8 \<or> d = 9"
    by arith
  then show "is_digit (digit_char d)" and "digit_val (digit_char d) = d"
    by (auto simp: digit_char_def is_digit_def digit_val_def)
qed

lemma nat_of_digits_Nil: "nat_of_digits [] = 0"
  by (simp add: nat_of_digits_def)

lemma nat_of_digits_snoc: "nat_of_digits (s @ [c]) = 10 * nat_of_digits s + digit_val c"
  by (simp add: nat_of_digits_def)

lemma nat_of_digits_append:
  "nat_of_digits (a @ b) = nat_of_digits a * 10 ^ length b + nat_of_digits b"
proof (induction b rule: rev_induct)
  case Nil
  then show ?case by (simp add: nat_of_digits_Nil)
next
  case (snoc c b)
  have "nat_of_digits (a @ b @ [c]) = 10 * nat_of_digits (a @ b) + digit_val c"
    using nat_of_digits_snoc [of "a @ b" c] by simp
  then show ?case
    by (simp add: snoc.IH nat_of_digits_snoc algebra_simps)
qed

lemma nat_of_digits_digits: "nat_of_digits (digits n) = n"
proof (induction n rule: digits.induct)
  case (1 n)
  show ?case
  proof (cases "n < 10")
    case True
    then show ?thesis
      using nat_of_digits_snoc [of "[]" "digit_char n"]
      by (simp add: digits.simps [of n] nat_of_digits_Nil digit_char_props)
  next
    case False
    then have "nat_of_digits (digits (n div 10)) = n div 10"
      using "1.IH" by simp
    with False show ?thesis
      by (simp add: digits.simps [of n] nat_of_digits_snoc digit_char_props)
  qed
qed

lemma digits_all_digit: "list_all is_digit (digits n)"
proof (induction n rule: digits.induct)
  case (1 n)
  then show ?case
    by (cases "n < 10") (simp_all add: digits.simps [of n] digit_char_props)
qed

lemma digits_nonempty: "digits n \<noteq> []"
  by (simp add: digits.simps [of n])

lemma length_digits_small: "n < 10 \<Longrightarrow> length (digits n) = 1"
  by (simp add: digits.simps [of n])

lemma length_digits_step: "10 \<le> n \<Longrightarrow> length (digits n) = Suc (length (digits (n div 10)))"
  by (simp add: digits.simps [of n])

lemma length_digits_le2: "n < 100 \<Longrightarrow> length (digits n) \<le> 2"
  by (cases "n < 10") (simp_all add: length_digits_small length_digits_step)

lemma length_digits_4:
  assumes "1000 \<le> n" and "n < 10000"
  shows "length (digits n) = 4"
proof -
  have "10 \<le> n" "10 \<le> n div 10" "10 \<le> n div 10 div 10" "n div 10 div 10 div 10 < 10"
    using assms by simp_all
  then show ?thesis
    by (simp add: length_digits_step length_digits_small)
qed

lemma length_zfill: "length s \<le> w \<Longrightarrow> length (zfill w s) = w"
  by (simp add: zfill_def)

lemma nat_of_digits_zeros: "nat_of_digits (replicate k (CHR ''0'') @ s) = nat_of_digits s"
proof (induction k)
  case 0
  then show ?case by simp
next
  case (Suc k)
  have "nat_of_digits (CHR ''0'' # replicate k (CHR ''0'') @ s) =
      nat_of_digits [CHR ''0''] * 10 ^ length (replicate k (CHR ''0'') @ s) +
      nat_of_digits (replicate k (CHR ''0'') @ s)"
    using nat_of_digits_append [of "[CHR ''0'']" "replicate k (CHR ''0'') @ s"] by simp
  moreover have "nat_of_digits [CHR ''0''] = 0"
    by (simp add: nat_of_digits_def digit_val_def)
  ultimately show ?case
    using Suc by simp
qed

lemma nat_of_digits_zfill: "nat_of_digits (zfill w (digits n)) = n"
  by (simp add: zfill_def nat_of_digits_zeros nat_of_digits_digits)

lemma zeros_all_digit: "list_all is_digit (replicate k (CHR ''0''))"
  by (induction k) (simp_all add: is_digit_def)

lemma zfill_all_digit: "list_all is_digit (zfill w (digits n))"
  by (simp add: zfill_def digits_all_digit zeros_all_digit)

lemma expand_iso_format:
  "expand_format d ''%Y-%m-%dT%H:%M:%SZ'' =
     zfill 4 (digits (year d)) @ ''-'' @ zfill 2 (digits (month d)) @ ''-'' @
     zfill 2 (digits (day d)) @ ''T00:00:00Z''"
  by (simp add: directive_def)

lemma iso_midnight_z_parts:
  assumes "length y = 4" and "length m = 2" and "length dd = 2"
    and "list_all is_digit y" and "list_all is_digit m" and "list_all is_digit dd"
    and "nat_of_digits y = year d" and "nat_of_digits m = month d" and "nat_of_digits dd = day d"
  shows "iso_midnight_z d (y @ ''-'' @ m @ ''-'' @ dd @ ''T00:00:00Z'')"
  using assms by (simp add: iso_midnight_z_def nth_append)

lemma days_in_month_le: "days_in_month y m \<le> 31"
  by (simp add: days_in_month_def)

subsection \<open>Reading back the string of a decimal\<close>

text \<open>
  The cases are those of \<^verbatim>\<open>Decimal.__str__\<close>: by the place of the point
  (\<^verbatim>\<open>dotplace\<close>) and by whether an exponent is written.
\<close>

lemma not_digit_chars:
  "\<not> is_digit (CHR ''-'')" "\<not> is_digit (CHR ''.'')" "\<not> is_digit (CHR ''E'')"
  "\<not> is_digit (CHR ''+'')"
  by (simp_all add: is_digit_def)

lemma span_digits:
  assumes "list_all is_digit xs" and "rest = [] \<or> \<not> is_digit (hd rest)"
  shows "takeWhile is_digit (xs @ rest) = xs" and "dropWhile is_digit (xs @ rest) = rest"
proof -
  have all: "\<And>x. x \<in> set xs \<Longrightarrow> is_digit x"
    using assms(1) by (simp add: list_all_iff)
  have "takeWhile is_digit rest = []" and "dropWhile is_digit rest = rest"
    using assms(2) by (cases rest; simp)+
  then show "takeWhile is_digit (xs @ rest) = xs" and "dropWhile is_digit (xs @ rest) = rest"
    using all by (simp_all add: takeWhile_append2 dropWhile_append2)
qed

lemma read_exponent_str:
  "read_exponent
     (if k = 0 then []
      else ''E'' @ (if k < 0 then ''-'' else ''+'') @ digits (nat \<bar>k\<bar>)) = Some k"
proof (cases "k = 0")
  case True
  then show ?thesis by (simp add: read_exponent_def)
next
  case False
  obtain c cs where d: "digits (nat \<bar>k\<bar>) = c # cs"
    using digits_nonempty [of "nat \<bar>k\<bar>"] by (cases "digits (nat \<bar>k\<bar>)") auto
  have all: "list_all is_digit (c # cs)" and val: "nat_of_digits (c # cs) = nat \<bar>k\<bar>"
    using digits_all_digit [of "nat \<bar>k\<bar>"] nat_of_digits_digits [of "nat \<bar>k\<bar>"]
    by (simp_all add: d)
  show ?thesis
    using False all val by (simp add: read_exponent_def d)
qed

lemma read_decimal_no_point:
  assumes ip: "list_all is_digit ip" "ip \<noteq> []"
    and ex: "read_exponent ex = Some k" "ex = [] \<or> hd ex = CHR ''E''"
  shows "read_decimal ((if neg then ''-'' else []) @ ip @ ex) =
           Some (Decimal neg (nat_of_digits ip) k)"
proof -
  obtain c cs where c: "ip = c # cs" "is_digit c"
    using ip by (cases ip) auto
  then have c': "c \<noteq> CHR ''-''"
    using not_digit_chars(1) by auto
  have rest: "ex = [] \<or> \<not> is_digit (hd ex)"
    using ex(2) not_digit_chars(3) by auto
  have notpoint: "(case ex of [] \<Rightarrow> False | c # r \<Rightarrow> c = CHR ''.'') = False"
    using ex(2) by (cases ex) auto
  show ?thesis
  proof (cases neg)
    case True
    then show ?thesis
      using span_digits [OF ip(1) rest] ip(2) ex(1) notpoint
      by (simp add: read_decimal_def)
  next
    case False
    have s: "(if neg then ''-'' else []) @ ip @ ex = c # cs @ ex"
      using False c(1) by simp
    have sp: "takeWhile is_digit (c # cs @ ex) = ip" "dropWhile is_digit (c # cs @ ex) = ex"
      using span_digits [OF ip(1) rest] c(1) by simp_all
    show ?thesis
      unfolding s using False c' sp ip(2) ex(1) notpoint
      by (simp add: read_decimal_def)
  qed
qed

lemma read_decimal_point:
  assumes ip: "list_all is_digit ip" "ip \<noteq> []"
    and fp: "list_all is_digit fp"
    and ex: "read_exponent ex = Some k" "ex = [] \<or> hd ex = CHR ''E''"
  shows "read_decimal ((if neg then ''-'' else []) @ ip @ ''.'' @ fp @ ex) =
           Some (Decimal neg (nat_of_digits (ip @ fp)) (k - int (length fp)))"
proof -
  obtain c cs where c: "ip = c # cs" "is_digit c"
    using ip by (cases ip) auto
  then have c': "c \<noteq> CHR ''-''"
    using not_digit_chars(1) by auto
  have rest: "ex = [] \<or> \<not> is_digit (hd ex)"
    using ex(2) not_digit_chars(3) by auto
  have rest1: "CHR ''.'' # fp @ ex = [] \<or> \<not> is_digit (hd (CHR ''.'' # fp @ ex))"
    using not_digit_chars(2) by simp
  note sp1 = span_digits [OF ip(1) rest1]
  note sp2 = span_digits [OF fp rest]
  show ?thesis
  proof (cases neg)
    case True
    then show ?thesis
      using sp1 sp2 ip(2) ex(1)
      by (simp add: read_decimal_def)
  next
    case False
    have s: "(if neg then ''-'' else []) @ ip @ ''.'' @ fp @ ex = c # cs @ CHR ''.'' # fp @ ex"
      using False c(1) by simp
    have sp: "takeWhile is_digit (c # cs @ CHR ''.'' # fp @ ex) = ip"
      "dropWhile is_digit (c # cs @ CHR ''.'' # fp @ ex) = CHR ''.'' # fp @ ex"
      using sp1 c(1) by simp_all
    show ?thesis
      unfolding s using False c' sp sp2 ip(2) ex(1)
      by (simp add: read_decimal_def)
  qed
qed

lemma read_exponent_Nil: "read_exponent [] = Some 0"
  by (simp add: read_exponent_def)

lemma nat_of_digits_zero_zeros:
  "nat_of_digits (''0'' @ replicate k (CHR ''0'') @ s) = nat_of_digits s"
  using nat_of_digits_zeros [of "Suc k" s] by simp

lemma length_digits_pos: "1 \<le> int (length (digits n))"
  using digits_nonempty [of n] by (cases "digits n") simp_all

text \<open>dotplace = leftdigits, not positive: 0.000ddd\<close>

lemma roundtrip_leading_zeros:
  assumes "e \<le> 0" and "- 6 < e + int (length (digits n))"
    and "e + int (length (digits n)) \<le> 0"
  shows "read_decimal (str_decimal (Decimal neg n e)) = Some (Decimal neg n e)"
proof -
  let ?ds = "digits n"
  let ?z = "replicate (nat (- (e + int (length ?ds)))) (CHR ''0'')"
  have str: "str_decimal (Decimal neg n e) =
      (if neg then ''-'' else []) @ ''0'' @ ''.'' @ (?z @ ?ds) @ []"
    using assms by (simp add: str_decimal_def Let_def)
  have "read_decimal ((if neg then ''-'' else []) @ ''0'' @ ''.'' @ (?z @ ?ds) @ []) =
      Some (Decimal neg (nat_of_digits (''0'' @ ?z @ ?ds)) (0 - int (length (?z @ ?ds))))"
    by (rule read_decimal_point)
      (simp_all add: is_digit_def read_exponent_Nil zeros_all_digit digits_all_digit)
  moreover have "nat_of_digits (''0'' @ ?z @ ?ds) = n"
    by (simp only: nat_of_digits_zero_zeros nat_of_digits_digits)
  moreover have "0 - int (length (?z @ ?ds)) = e"
    using assms by simp
  ultimately show ?thesis
    by (simp only: str)
qed

text \<open>dotplace = leftdigits = number of digits: exponent 0, ddd\<close>

lemma roundtrip_integer:
  assumes "e \<le> 0" and "0 < e + int (length (digits n))"
    and "int (length (digits n)) \<le> e + int (length (digits n))"
  shows "read_decimal (str_decimal (Decimal neg n e)) = Some (Decimal neg n e)"
proof -
  let ?ds = "digits n"
  have e: "e = 0"
    using assms by simp
  have str: "str_decimal (Decimal neg n 0) = (if neg then ''-'' else []) @ ?ds @ []"
    using length_digits_pos [of n] by (simp add: str_decimal_def Let_def digits_nonempty)
  have "read_decimal ((if neg then ''-'' else []) @ ?ds @ []) =
      Some (Decimal neg (nat_of_digits ?ds) 0)"
    by (rule read_decimal_no_point)
      (simp_all add: read_exponent_Nil digits_all_digit digits_nonempty)
  then show ?thesis
    unfolding e str nat_of_digits_digits .
qed

text \<open>dotplace = leftdigits inside the digits: dd.ddd\<close>

lemma roundtrip_point_inside:
  assumes "e \<le> 0" and "0 < e + int (length (digits n))"
    and "e + int (length (digits n)) < int (length (digits n))"
  shows "read_decimal (str_decimal (Decimal neg n e)) = Some (Decimal neg n e)"
proof -
  let ?ds = "digits n"
  let ?k = "nat (e + int (length ?ds))"
  have k: "0 < ?k" "?k < length ?ds"
    using assms by simp_all
  have str: "str_decimal (Decimal neg n e) =
      (if neg then ''-'' else []) @ take ?k ?ds @ ''.'' @ drop ?k ?ds @ []"
    using assms by (simp add: str_decimal_def Let_def)
  have all: "list_all is_digit (take ?k ?ds)" "list_all is_digit (drop ?k ?ds)"
    using digits_all_digit [of n]
    by (auto simp: list_all_iff dest: in_set_takeD in_set_dropD)
  have ne: "take ?k ?ds \<noteq> []"
    using k by auto
  have "read_decimal ((if neg then ''-'' else []) @ take ?k ?ds @ ''.'' @ drop ?k ?ds @ []) =
      Some (Decimal neg (nat_of_digits (take ?k ?ds @ drop ?k ?ds))
              (0 - int (length (drop ?k ?ds))))"
    by (rule read_decimal_point [OF all(1) ne all(2)]) (simp_all add: read_exponent_Nil)
  moreover have "nat_of_digits (take ?k ?ds @ drop ?k ?ds) = n"
    by (simp add: nat_of_digits_digits)
  moreover have "0 - int (length (drop ?k ?ds)) = e"
    using assms by simp
  ultimately show ?thesis
    by (simp only: str)
qed

text \<open>dotplace = 1, one digit: dE+x\<close>

lemma roundtrip_exponent_one_digit:
  assumes "\<not> (e \<le> 0 \<and> - 6 < e + int (length (digits n)))"
    and "length (digits n) = 1"
  shows "read_decimal (str_decimal (Decimal neg n e)) = Some (Decimal neg n e)"
proof -
  let ?ds = "digits n"
  let ?ex = "if e = 0 then []
             else ''E'' @ (if e < 0 then ''-'' else ''+'') @ digits (nat \<bar>e\<bar>)"
  have str: "str_decimal (Decimal neg n e) = (if neg then ''-'' else []) @ ?ds @ ?ex"
    using assms by (simp add: str_decimal_def Let_def)
  have "read_decimal ((if neg then ''-'' else []) @ ?ds @ ?ex) =
      Some (Decimal neg (nat_of_digits ?ds) e)"
    by (rule read_decimal_no_point [OF digits_all_digit digits_nonempty read_exponent_str]) simp
  then show ?thesis
    by (simp only: str nat_of_digits_digits)
qed

text \<open>dotplace = 1, several digits: d.dddE+x\<close>

lemma roundtrip_exponent_point:
  assumes "\<not> (e \<le> 0 \<and> - 6 < e + int (length (digits n)))"
    and "1 < length (digits n)"
  shows "read_decimal (str_decimal (Decimal neg n e)) = Some (Decimal neg n e)"
proof -
  let ?ds = "digits n"
  let ?x = "e + int (length ?ds) - 1"
  let ?ex = "if ?x = 0 then []
             else ''E'' @ (if ?x < 0 then ''-'' else ''+'') @ digits (nat \<bar>?x\<bar>)"
  have L: "1 < int (length ?ds)"
    using assms(2) by simp
  have x: "e + int (length ?ds) \<noteq> 1"
    using assms(1) L by linarith
  have str: "str_decimal (Decimal neg n e) =
      (if neg then ''-'' else []) @ take 1 ?ds @ ''.'' @ drop 1 ?ds @ ?ex"
  proof (cases "0 < e")
    case True
    then show ?thesis
      using L x by (simp add: str_decimal_def Let_def)
  next
    case False
    then have "e + int (length ?ds) \<le> - 6"
      using assms(1) by linarith
    then show ?thesis
      using L x False by (simp add: str_decimal_def Let_def)
  qed
  have all: "list_all is_digit (take 1 ?ds)" "list_all is_digit (drop 1 ?ds)"
    using digits_all_digit [of n]
    by (auto simp: list_all_iff dest: in_set_takeD in_set_dropD)
  have ne: "take 1 ?ds \<noteq> []"
    using assms(2) by auto
  have "read_decimal ((if neg then ''-'' else []) @ take 1 ?ds @ ''.'' @ drop 1 ?ds @ ?ex) =
      Some (Decimal neg (nat_of_digits (take 1 ?ds @ drop 1 ?ds))
              (?x - int (length (drop 1 ?ds))))"
    by (rule read_decimal_point [OF all(1) ne all(2) read_exponent_str]) simp
  moreover have "nat_of_digits (take 1 ?ds @ drop 1 ?ds) = n"
    by (simp add: nat_of_digits_digits)
  moreover have "?x - int (length (drop 1 ?ds)) = e"
    using assms(2) by simp
  ultimately show ?thesis
    by (simp only: str)
qed

lemma read_decimal_str_decimal: "read_decimal (str_decimal d) = Some d"
proof -
  obtain neg n e where d: "d = Decimal neg n e"
    by (cases d)
  let ?L = "int (length (digits n))"
  have L: "1 \<le> ?L"
    by (rule length_digits_pos)
  show ?thesis
  proof (cases "e \<le> 0 \<and> - 6 < e + ?L")
    case True
    consider "e + ?L \<le> 0" | "0 < e + ?L" "?L \<le> e + ?L" | "0 < e + ?L" "e + ?L < ?L"
      by linarith
    then show ?thesis
      using True
      by cases
        (simp_all add: d roundtrip_leading_zeros roundtrip_integer roundtrip_point_inside)
  next
    case False
    from L consider "length (digits n) = 1" | "1 < length (digits n)"
      by linarith
    then show ?thesis
      using False
      by cases (simp_all add: d roundtrip_exponent_one_digit roundtrip_exponent_point)
  qed
qed

lemma exact_decimal_string_str: "exact_decimal_string (Some (PStr (str_decimal d))) d"
  by (simp add: exact_decimal_string_def read_decimal_str_decimal)

subsection \<open>Calls and their traces\<close>

lemma perform_eq:
  "perform ev call s = (fst (call (remote s)), \<lparr>remote = snd (call (remote s)), trace = trace s @ [ev]\<rparr>)"
  by (simp add: perform_def split: prod.splits)

lemma events_of_eq:
  "trace (snd (m s)) = trace s @ evs \<Longrightarrow> events_of m s = evs"
  by (simp add: events_of_def)


lemma ensure_customer_error:
  assumes "customer_get_guid c (remote s) = (Inl e, w)" and "e \<noteq> ObjectDoesNotExist"
  shows "ensure_customer c s = (Inl e, \<lparr>remote = w, trace = trace s @ [Customer_get_guid]\<rparr>)"
  using assms by (simp add: ensure_customer_def perform_eq)



lemma fetch_ledger_ids_empty: "fetch_ledger_ids api [] s = (Inr None, s)"
  by (simp add: fetch_ledger_ids_def)

lemma fetch_ledger_ids_nonempty:
  assumes "ls \<noteq> []"
  shows "fetch_ledger_ids api ls s =
     (map_sum id (\<lambda>rs. Some (ledger_ids_of rs))
        (fst (ledgeraccounts_filter api (set (map code ls)) (remote s))),
      \<lparr>remote = snd (ledgeraccounts_filter api (set (map code ls)) (remote s)),
       trace = trace s @ [Ledgeraccounts_filter (set (map code ls))]\<rparr>)"
  using assms by (simp add: fetch_ledger_ids_def perform_eq split: sum.splits)

lemma fetch_ledger_ids_trace:
  "trace (snd (fetch_ledger_ids api ls s)) =
     trace s @ (if ls = [] then [] else [Ledgeraccounts_filter (set (map code ls))])"
  by (simp add: fetch_ledger_ids_empty fetch_ledger_ids_nonempty)

lemma ensure_customer_trace:
  "\<exists>evs. trace (snd (ensure_customer c s)) = trace s @ evs \<and>
         set evs \<subseteq> {Customer_get_guid, Customer_commit}"
  by (auto simp: ensure_customer_def perform_eq split: prod.splits sum.splits)

subsection \<open>The stages of \<^verbatim>\<open>assemble()\<close>\<close>

lemma assemble_before_1900:
  "year (get_created_date self) < 1900 \<Longrightarrow>
   \<exists>e. assemble api self s = (Inl e, s)"
  by (simp add: assemble_def strftime_def Let_def)

lemma assemble_customer_fails:
  "ensure_customer (get_customer self) s = (Inl e, s1) \<Longrightarrow> 1900 \<le> year (get_created_date self) \<Longrightarrow>
   assemble api self s = (Inl e, s1)"
  by (simp add: assemble_def strftime_def Let_def)

lemma assemble_trace:
  assumes "1900 \<le> year (get_created_date self)"
  shows "trace (snd (assemble api self s)) =
     (case ensure_customer (get_customer self) s of
        (Inl e, s1) \<Rightarrow> trace s1
      | (Inr g, s1) \<Rightarrow> trace (snd (fetch_ledger_ids api (get_ledger_lines self) s1)))"
  using assms
  by (simp add: assemble_def strftime_def Let_def split: prod.splits sum.splits)

subsection \<open>The loop over the ledger lines\<close>

lemma assemble_line_Some:
  "assemble_line (Some ids) l = Inr e \<longleftrightarrow>
     (\<exists>gid. ids (code l) = Some gid \<and> (vat_percentage l = 0 \<or> vat_percentage l = 21) \<and>
        e = [''AmountDC'' \<mapsto> PStr (str_decimal (total_amount_excl_vat l)),
             ''AmountFC'' \<mapsto> PStr (str_decimal (total_amount_excl_vat l)),
             ''Description'' \<mapsto> PStr (description l),
             ''GLAccount'' \<mapsto> gid,
             ''VATCode'' \<mapsto> PStr (if vat_percentage l = 0 then ''0  '' else ''2  '')])"
  by (auto simp: assemble_line_def split: option.splits)

lemma assemble_line_None: "assemble_line None l = Inl (UnboundLocalError ''ledger_ids'')"
  by (simp add: assemble_line_def)

lemma assemble_line_absent:
  "ids (code l) = None \<Longrightarrow>
   assemble_line (Some ids) l =
     Inl (ExactOnlineError (''Cannot submit invoice with ledger code '' @ code l))"
  by (simp add: assemble_line_def)

lemma assemble_line_unknown_vat:
  "ids (code l) = Some gid \<Longrightarrow> vat_percentage l \<noteq> 0 \<Longrightarrow> vat_percentage l \<noteq> 21 \<Longrightarrow>
   assemble_line (Some ids) l =
     Inl (NotImplementedError (''Unknown VAT: '' @ str_int (vat_percentage l)))"
  by (simp add: assemble_line_def)

lemma assemble_lines_append:
  "assemble_lines ids (xs @ ys) acc =
     (case assemble_lines ids xs acc of Inl e \<Rightarrow> Inl e | Inr acc' \<Rightarrow> assemble_lines ids ys acc')"
  by (induction xs arbitrary: acc) (auto split: sum.splits)

lemma assemble_lines_Inr:
  "assemble_lines ids ls acc = Inr out \<longleftrightarrow>
     (\<exists>entries. list_all2 (\<lambda>l e. assemble_line ids l = Inr e) ls entries \<and>
        out = acc @ map PDict entries)"
proof (induction ls arbitrary: acc)
  case Nil
  then show ?case by auto
next
  case (Cons l ls)
  show ?case
  proof (cases "assemble_line ids l")
    case (Inl e)
    then show ?thesis by (auto simp: list_all2_Cons1)
  next
    case (Inr e)
    then show ?thesis
      by (auto simp: Cons.IH list_all2_Cons1)
  qed
qed

lemma assemble_InrD:
  assumes "assemble api self s = (Inr data, s')"
  shows "\<exists>g s1 ids entries.
     1900 \<le> year (get_created_date self) \<and>
     ensure_customer (get_customer self) s = (Inr g, s1) \<and>
     fetch_ledger_ids api (get_ledger_lines self) s1 = (Inr ids, s') \<and>
     assemble_lines ids (get_ledger_lines self) [] = Inr entries \<and>
     data ''SalesEntryLines'' = Some (PList entries) \<and>
     data ''Customer'' = Some g"
  using assms
  by (auto simp: assemble_def strftime_def Let_def split: prod.splits sum.splits if_splits)

lemma assemble_amounts:
  assumes "assemble api self s = (Inr data, s')"
  shows "data ''AmountDC'' = Some (PStr (str_decimal (get_total_amount_incl_vat self)))"
    and "data ''AmountFC'' = Some (PStr (str_decimal (get_total_amount_incl_vat self)))"
    and "data ''VATAmountDC'' = Some (PStr (str_decimal (get_total_vat self)))"
    and "data ''VATAmountFC'' = Some (PStr (str_decimal (get_total_vat self)))"
  using assms
  by (auto simp: assemble_def strftime_def Let_def split: prod.splits sum.splits if_splits)

lemma assemble_dates:
  assumes "assemble api self s = (Inr data, s')"
  shows "data ''EntryDate'' =
           Some (PStr (expand_format (get_created_date self) ''%Y-%m-%dT%H:%M:%SZ''))"
    and "data ''ReportingPeriod'' = Some (PInt (int (month (get_created_date self))))"
    and "data ''ReportingYear'' = Some (PInt (int (year (get_created_date self))))"
  using assms
  by (auto simp: assemble_def strftime_def Let_def split: prod.splits sum.splits if_splits)

lemma assemble_succeeds:
  assumes "1900 \<le> year (get_created_date self)"
    and "ensure_customer (get_customer self) s = (Inr g, s1)"
    and "fetch_ledger_ids api (get_ledger_lines self) s1 = (Inr ids, s2)"
    and "assemble_lines ids (get_ledger_lines self) [] = Inr entries"
  shows "\<exists>data. assemble api self s = (Inr data, s2)"
  using assms
  by (simp add: assemble_def strftime_def Let_def)

lemma dom_foldl_ledger_ids:
  "dom (foldl (\<lambda>m r. m(account_Code r \<mapsto> account_ID r)) m0 rs) = dom m0 \<union> account_Code ` set rs"
  by (induction rs arbitrary: m0) auto

lemma dom_ledger_ids_of: "dom (ledger_ids_of rs) = account_Code ` set rs"
  by (simp add: ledger_ids_of_def dom_foldl_ledger_ids)

lemma assemble_line_fields:
  assumes "assemble_line ids l = Inr e"
  shows "e ''AmountDC'' = Some (PStr (str_decimal (total_amount_excl_vat l)))"
    and "e ''AmountFC'' = Some (PStr (str_decimal (total_amount_excl_vat l)))"
    and "e ''Description'' = Some (PStr (description l))"
    and "e ''VATCode'' = Some (PStr (if vat_percentage l = 0 then ''0  '' else ''2  ''))"
    and "\<exists>m. ids = Some m \<and> m (code l) \<noteq> None \<and> e ''GLAccount'' = m (code l)"
    and "vat_percentage l = 0 \<or> vat_percentage l = 21"
  using assms
  by (cases ids; auto simp: assemble_line_None assemble_line_Some)+

lemma assemble_entries:
  assumes "assemble api self s = (Inr data, s')"
  shows "\<exists>ids entries.
           data ''SalesEntryLines'' = Some (PList (map PDict entries)) \<and>
           list_all2 (\<lambda>l e. assemble_line ids l = Inr e) (get_ledger_lines self) entries"
proof -
  from assemble_InrD [OF assms] obtain ids out where
    out: "assemble_lines ids (get_ledger_lines self) [] = Inr out"
    and data: "data ''SalesEntryLines'' = Some (PList out)"
    by blast
  from out obtain entries where
    "list_all2 (\<lambda>l e. assemble_line ids l = Inr e) (get_ledger_lines self) entries"
    and "out = map PDict entries"
    by (auto simp: assemble_lines_Inr)
  with data show ?thesis by blast
qed

subsection \<open>The first line that fails\<close>

lemma assemble_line_ok:
  assumes "ids (code l) \<noteq> None" and "vat_percentage l = 0 \<or> vat_percentage l = 21"
  shows "\<exists>e. assemble_line (Some ids) l = Inr e"
  using assms by (auto simp: assemble_line_Some)

lemma assemble_lines_first_failure:
  assumes "\<forall>p \<in> set pre. \<exists>e. assemble_line ids p = Inr e"
    and "assemble_line ids l = Inl err"
  shows "assemble_lines ids (pre @ l # post) acc = Inl err"
  using assms by (induction pre arbitrary: acc) auto

lemma assemble_loop_fails:
  assumes "1900 \<le> year (get_created_date self)"
    and "ensure_customer (get_customer self) s = (Inr g, s1)"
    and "fetch_ledger_ids api (get_ledger_lines self) s1 = (Inr ids, s2)"
    and "assemble_lines ids (get_ledger_lines self) [] = Inl err"
  shows "assemble api self s = (Inl err, s2)"
  using assms by (simp add: assemble_def strftime_def Let_def)

lemma fetch_ledger_ids_returns:
  assumes "ls \<noteq> []"
    and "ledgeraccounts_filter api (set (map code ls)) (remote s) = (Inr rs, w)"
  shows "fetch_ledger_ids api ls s =
           (Inr (Some (ledger_ids_of rs)),
            \<lparr>remote = w, trace = trace s @ [Ledgeraccounts_filter (set (map code ls))]\<rparr>)"
  using assms by (simp add: fetch_ledger_ids_nonempty)

lemma ledger_ids_of_None: "ledger_ids_of rs c = None \<longleftrightarrow> c \<notin> account_Code ` set rs"
proof -
  have "ledger_ids_of rs c = None \<longleftrightarrow> c \<notin> dom (ledger_ids_of rs)"
    by (simp add: domIff)
  then show ?thesis
    by (simp only: dom_ledger_ids_of)
qed

lemma assemble_first_bad_line:
  assumes reached: "1900 \<le> year (get_created_date self)"
    and customer: "ensure_customer (get_customer self) s = (Inr g, s1)"
    and lookup: "ledgeraccounts_filter api (set (map code (get_ledger_lines self))) (remote s1) =
                   (Inr rs, w2)"
    and split: "get_ledger_lines self = pre @ l # post"
    and pre: "\<forall>p \<in> set pre. code p \<in> account_Code ` set rs \<and>
                (vat_percentage p = 0 \<or> vat_percentage p = 21)"
    and bad: "assemble_line (Some (ledger_ids_of rs)) l = Inl err"
  shows "assemble api self s =
           (Inl err,
            \<lparr>remote = w2,
             trace = trace s1 @ [Ledgeraccounts_filter (set (map code (get_ledger_lines self)))]\<rparr>)"
proof -
  have ne: "get_ledger_lines self \<noteq> []"
    by (simp add: split)
  have ok: "\<forall>p \<in> set pre. \<exists>e. assemble_line (Some (ledger_ids_of rs)) p = Inr e"
  proof
    fix p
    assume "p \<in> set pre"
    with pre have "ledger_ids_of rs (code p) \<noteq> None"
      and "vat_percentage p = 0 \<or> vat_percentage p = 21"
      by (simp_all add: ledger_ids_of_None)
    then show "\<exists>e. assemble_line (Some (ledger_ids_of rs)) p = Inr e"
      by (rule assemble_line_ok)
  qed
  have "assemble_lines (Some (ledger_ids_of rs)) (get_ledger_lines self) [] = Inl err"
    unfolding split by (rule assemble_lines_first_failure [OF ok bad])
  with assemble_loop_fails [OF reached customer fetch_ledger_ids_returns [OF ne lookup]]
  show ?thesis .
qed

subsection \<open>The ledger lookup and what follows it\<close>

lemma assemble_fetch_fails:
  assumes "1900 \<le> year (get_created_date self)"
    and "ensure_customer (get_customer self) s = (Inr g, s1)"
    and "fetch_ledger_ids api (get_ledger_lines self) s1 = (Inl err, s2)"
  shows "assemble api self s = (Inl err, s2)"
  using assms by (simp add: assemble_def strftime_def Let_def)

lemma assemble_state_after_fetch:
  assumes reached: "1900 \<le> year (get_created_date self)"
    and customer: "ensure_customer (get_customer self) s = (Inr g, s1)"
    and fetch: "fetch_ledger_ids api (get_ledger_lines self) s1 = (r, s2)"
  shows "snd (assemble api self s) = s2"
proof (cases r)
  case (Inl err)
  then show ?thesis
    using assemble_fetch_fails [OF reached customer] fetch by simp
next
  case (Inr ids)
  show ?thesis
  proof (cases "assemble_lines ids (get_ledger_lines self) []")
    case (Inl err)
    then show ?thesis
      using assemble_loop_fails [OF reached customer] fetch Inr by simp
  next
    case (Inr entries)
    then show ?thesis
      using assemble_succeeds [OF reached customer] fetch \<open>r = Inr ids\<close> by fastforce
  qed
qed

lemma foldl_ledger_ids_Some:
  assumes "foldl (\<lambda>m r. m(account_Code r \<mapsto> account_ID r)) m0 rs c = Some v"
  shows "m0 c = Some v \<or> (\<exists>a \<in> set rs. account_Code a = c \<and> account_ID a = v)"
  using assms
proof (induction rs arbitrary: m0)
  case Nil
  then show ?case by simp
next
  case (Cons r rs)
  have "foldl (\<lambda>m r. m(account_Code r \<mapsto> account_ID r))
      (m0(account_Code r \<mapsto> account_ID r)) rs c = Some v"
    using Cons.prems by (simp only: foldl_Cons)
  from Cons.IH [OF this]
  show ?case
    by (auto split: if_splits)
qed

lemma ledger_ids_of_record:
  assumes "ledger_ids_of rs c = Some v"
  shows "\<exists>a \<in> set rs. account_Code a = c \<and> account_ID a = v"
  using foldl_ledger_ids_Some [of Map.empty rs c v] assms
  by (simp add: ledger_ids_of_def)

subsection \<open>The events of \<^verbatim>\<open>assemble()\<close>\<close>

lemma assemble_events:
  assumes "1900 \<le> year (get_created_date self)"
    and "ensure_customer (get_customer self) s = (r, s1)"
    and "trace s1 = trace s @ evs"
  shows "events_of (assemble api self) s =
           evs @ (case r of
                    Inl e \<Rightarrow> []
                  | Inr g \<Rightarrow>
                      if get_ledger_lines self = [] then []
                      else [Ledgeraccounts_filter (set (map code (get_ledger_lines self)))])"
  using assms
  by (intro events_of_eq) (simp add: assemble_trace fetch_ledger_ids_trace split: sum.splits)

lemma assemble_trace_grows:
  "\<exists>evs. trace (snd (assemble api self s)) = trace s @ evs \<and>
         (\<forall>ev \<in> set evs. ev = Customer_get_guid \<or> ev = Customer_commit \<or> is_ledger_lookup ev)"
proof (cases "1900 \<le> year (get_created_date self)")
  case False
  then obtain e where "assemble api self s = (Inl e, s)"
    using assemble_before_1900 [of self api s] by auto
  then show ?thesis by simp
next
  case True
  obtain r s1 where r: "ensure_customer (get_customer self) s = (r, s1)"
    by (cases "ensure_customer (get_customer self) s")
  obtain evs where evs: "trace s1 = trace s @ evs" "set evs \<subseteq> {Customer_get_guid, Customer_commit}"
    using ensure_customer_trace [of "get_customer self" s] r by auto
  show ?thesis
    using True r evs
    by (cases r) (auto simp: assemble_trace fetch_ledger_ids_trace)
qed

lemma assemble_no_submission: "filter is_submission (events_of (assemble api self) s) = []"
proof -
  obtain evs where "trace (snd (assemble api self s)) = trace s @ evs"
    and "\<forall>ev \<in> set evs. ev = Customer_get_guid \<or> ev = Customer_commit \<or> is_ledger_lookup ev"
    using assemble_trace_grows by blast
  moreover have "\<not> is_submission ev"
    if "ev = Customer_get_guid \<or> ev = Customer_commit \<or> is_ledger_lookup ev" for ev
    using that by (cases ev) auto
  ultimately show ?thesis
    by (auto simp: events_of_def filter_empty_conv)
qed

lemma assemble_trace_events:
  "trace (snd (assemble api self s)) = trace s @ events_of (assemble api self) s"
  using assemble_trace_grows [of api self s] by (auto simp: events_of_def)


lemma assemble_entries_length:
  assumes "assemble api self s = (Inr data, s')"
  shows "\<exists>entries. data ''SalesEntryLines'' = Some (PList (map PDict entries)) \<and>
                   length entries = length (get_ledger_lines self)"
proof -
  from assemble_entries [OF assms] obtain ids entries where
    "data ''SalesEntryLines'' = Some (PList (map PDict entries))"
    and "list_all2 (\<lambda>l e. assemble_line ids l = Inr e) (get_ledger_lines self) entries"
    by blast
  then have "data ''SalesEntryLines'' = Some (PList (map PDict entries)) \<and>
      length entries = length (get_ledger_lines self)"
    by (simp add: list_all2_lengthD)
  then show ?thesis ..
qed

lemma fetch_ledger_ids_other_api:
  "fetch_ledger_ids (api\<lparr>invoices_get := f\<rparr>) ls s = fetch_ledger_ids api ls s"
  by (simp add: fetch_ledger_ids_def)

lemma assemble_other_api:
  "assemble (api\<lparr>invoices_get := f\<rparr>) self s = assemble api self s"
  unfolding assemble_def fetch_ledger_ids_other_api ..

subsection \<open>The paths of \<^verbatim>\<open>commit()\<close>\<close>

lemma get_guid_trace:
  "get_guid api self s = (r, s1) \<Longrightarrow> trace s1 = trace s @ [Invoices_get (get_invoice_number self)]"
  by (auto simp: get_guid_def perform_eq split: sum.splits option.splits)

lemma commit_lookup_fails:
  assumes "get_guid api self s = (Inl e, s1)" and "e \<noteq> ObjectDoesNotExist"
  shows "commit api self s = (Inl e, s1)"
  using assms by (simp add: commit_def guid_or_none_def)

lemma commit_after_lookup:
  assumes "get_guid api self s = (r, s1)"
    and "r = Inl ObjectDoesNotExist \<and> exact_guid = PNone \<or> r = Inr exact_guid"
  shows "commit api self s =
           (case assemble api self s1 of
              (Inl e, s2) \<Rightarrow> (Inl e, s2)
            | (Inr data, s2) \<Rightarrow> submit api exact_guid data s2)"
  using assms by (auto simp: commit_def guid_or_none_def)

lemma submit_create:
  assumes "\<not> truthy exact_guid"
  shows "submit api exact_guid data s =
           (fst (invoices_create api data (remote s)),
            \<lparr>remote = snd (invoices_create api data (remote s)),
             trace = trace s @ [Invoices_create data]\<rparr>)"
  using assms by (simp add: submit_def perform_eq)


lemma commit_events:
  assumes lookup: "get_guid api self s = (r, s1)"
    and path: "r = Inl ObjectDoesNotExist \<and> exact_guid = PNone \<or> r = Inr exact_guid"
    and asm: "assemble api self s1 = (Inr data, s2)"
    and sub: "submit api exact_guid data s2 = (ret, s3)"
    and tr: "trace s3 = trace s2 @ evs"
  shows "commit api self s = (ret, s3)"
    and "events_of (commit api self) s =
           Invoices_get (get_invoice_number self) # events_of (assemble api self) s1 @ evs"
proof -
  show c: "commit api self s = (ret, s3)"
    using commit_after_lookup [OF lookup path] asm sub by simp
  have "trace s2 = trace s1 @ events_of (assemble api self) s1"
    using assemble_trace_events [of api self s1] asm by simp
  then have "trace s3 =
      trace s @ Invoices_get (get_invoice_number self) # events_of (assemble api self) s1 @ evs"
    using get_guid_trace [OF lookup] tr by simp
  then show "events_of (commit api self) s =
      Invoices_get (get_invoice_number self) # events_of (assemble api self) s1 @ evs"
    using c by (intro events_of_eq) simp
qed


lemma commit_creates:
  assumes lookup: "get_guid api self s = (r, s1)"
    and path: "r = Inl ObjectDoesNotExist \<and> exact_guid = PNone \<or> r = Inr exact_guid"
    and falsy: "\<not> truthy exact_guid"
    and asm: "assemble api self s1 = (Inr data, s2)"
  shows "commit api self s = perform (Invoices_create data) (invoices_create api data) s2"
    and "events_of (commit api self) s =
           Invoices_get (get_invoice_number self) # events_of (assemble api self) s1 @
           [Invoices_create data]"
    and "filter is_submission (events_of (commit api self) s) = [Invoices_create data]"
proof -
  have sub: "submit api exact_guid data s2 =
      (fst (invoices_create api data (remote s2)),
       \<lparr>remote = snd (invoices_create api data (remote s2)),
        trace = trace s2 @ [Invoices_create data]\<rparr>)"
    by (rule submit_create [OF falsy])
  show "commit api self s = perform (Invoices_create data) (invoices_create api data) s2"
    using commit_events(1) [OF lookup path asm sub] by (simp add: perform_eq)
  show ev: "events_of (commit api self) s =
      Invoices_get (get_invoice_number self) # events_of (assemble api self) s1 @
      [Invoices_create data]"
    using commit_events(2) [OF lookup path asm sub] by simp
  show "filter is_submission (events_of (commit api self) s) = [Invoices_create data]"
    by (simp add: ev assemble_no_submission)
qed


subsection \<open>Concrete runs\<close>

lemmas demo_defs = demo_customer_def demo_api_def demo_line_def demo_invoice_def
  demo_world_def demo_state_def

lemmas run_defs = assemble_def strftime_def Let_def ensure_customer_def perform_eq
  fetch_ledger_ids_def assemble_line_def ledger_ids_of_def


lemma demo_get_guid_found:
  "get_guid demo_api (demo_invoice ls) (demo_state c [(''INV-001'', [''EntryID'' \<mapsto> g])]) =
     (Inr g, \<lparr>remote = demo_world c [(''INV-001'', [''EntryID'' \<mapsto> g])],
              trace = [Invoices_get ''INV-001'']\<rparr>)"
  by (simp add: get_guid_def perform_eq demo_defs)

lemma demo_assemble_succeeds:
  "\<exists>data s2. assemble demo_api (demo_invoice [demo_line ''1234'' 21])
      \<lparr>remote = demo_world (Some (PStr ''c-0'')) invs, trace = t\<rparr> = (Inr data, s2)"
  by (simp add: run_defs demo_defs)

lemma demo_reached: "1900 \<le> year (get_created_date (demo_invoice ls))"
  by (simp add: demo_defs)

lemma demo_customer_found:
  "ensure_customer (get_customer (demo_invoice ls)) (demo_state (Some g) invs) =
     (Inr g, \<lparr>remote = demo_world (Some g) invs, trace = [Customer_get_guid]\<rparr>)"
  by (simp add: demo_defs ensure_customer_def perform_eq)

section \<open>The properties\<close>

subsection \<open>The worked example\<close>

text \<open>
  \<^bold>\<open>C7.\<close> The invoice \<^verbatim>\<open>INV-001\<close> of 2024-03-15 with the total 121.00, the VAT 21.00
  and the single ledger line with the code \<^verbatim>\<open>1234\<close>, 21 percent VAT, the amount 100.00
  and the description \<^verbatim>\<open>Goods\<close>: when the customer is resolved and the ledger lookup
  returns the code \<^verbatim>\<open>1234\<close>, \<^verbatim>\<open>assemble()\<close> returns a payload whose
  \<^verbatim>\<open>EntryDate\<close> is \<^verbatim>\<open>2024-03-15T00:00:00Z\<close>, whose \<^verbatim>\<open>ReportingPeriod\<close> is 3, whose
  \<^verbatim>\<open>ReportingYear\<close> is 2024 and whose \<^verbatim>\<open>SalesEntryLines\<close> holds exactly one entry,
  with the \<^verbatim>\<open>VATCode\<close> \<^verbatim>\<open>"2  "\<close>.
\<close>

theorem assemble_example:
  assumes number: "get_invoice_number self = ''INV-001''"
    and created: "get_created_date self = \<lparr>year = 2024, month = 3, day = 15\<rparr>"
    and total: "get_total_amount_incl_vat self = Decimal False 12100 (- 2)"
    and vat: "get_total_vat self = Decimal False 2100 (- 2)"
    and lines: "get_ledger_lines self =
                  [\<lparr>code = ''1234'', vat_percentage = 21,
                    total_amount_excl_vat = Decimal False 10000 (- 2),
                    description = ''Goods''\<rparr>]"
    and customer: "ensure_customer (get_customer self) s = (Inr g, s1)"
    and lookup: "ledgeraccounts_filter api {''1234''} (remote s1) = (Inr rs, w2)"
    and resolves: "''1234'' \<in> account_Code ` set rs"
  shows "\<exists>data s2 line.
           assemble api self s = (Inr data, s2) \<and>
           data ''EntryDate'' = Some (PStr ''2024-03-15T00:00:00Z'') \<and>
           data ''ReportingPeriod'' = Some (PInt 3) \<and>
           data ''ReportingYear'' = Some (PInt 2024) \<and>
           data ''SalesEntryLines'' = Some (PList [PDict line]) \<and>
           line ''VATCode'' = Some (PStr ''2  '')"
proof -
  let ?l = "\<lparr>code = ''1234'', vat_percentage = 21,
             total_amount_excl_vat = Decimal False 10000 (- 2), description = ''Goods''\<rparr>"
  let ?s2 = "\<lparr>remote = w2, trace = trace s1 @ [Ledgeraccounts_filter {''1234''}]\<rparr>"
  from resolves obtain gid where gid: "ledger_ids_of rs ''1234'' = Some gid"
    using dom_ledger_ids_of [of rs] by blast
  have fetch: "fetch_ledger_ids api (get_ledger_lines self) s1 = (Inr (Some (ledger_ids_of rs)), ?s2)"
    using lookup by (simp add: lines fetch_ledger_ids_nonempty)
  obtain line where line: "assemble_line (Some (ledger_ids_of rs)) ?l = Inr line"
    using gid by (simp add: assemble_line_Some)
  then have loop: "assemble_lines (Some (ledger_ids_of rs)) (get_ledger_lines self) [] = Inr [PDict line]"
    by (simp add: lines)
  have y: "1900 \<le> year (get_created_date self)"
    by (simp add: created)
  from assemble_succeeds [OF y customer fetch loop]
  obtain data where ok: "assemble api self s = (Inr data, ?s2)" ..
  from assemble_InrD [OF ok] fetch loop
  have sel: "data ''SalesEntryLines'' = Some (PList [PDict line])"
    using customer by auto
  have date: "expand_format (get_created_date self) ''%Y-%m-%dT%H:%M:%SZ'' = ''2024-03-15T00:00:00Z''"
    by (simp add: created directive_def zfill_def digits.simps digit_char_def)
  have "line ''VATCode'' = Some (PStr ''2  '')"
    using assemble_line_fields(4) [OF line] by simp
  with ok sel date assemble_dates [OF ok] show ?thesis
    by (simp add: created)
qed

theorem assemble_example_witness:
  "\<exists>data s2 line.
     assemble demo_api (demo_invoice [demo_line ''1234'' 21])
       (demo_state (Some (PStr ''c-1'')) []) = (Inr data, s2) \<and>
     data ''EntryDate'' = Some (PStr ''2024-03-15T00:00:00Z'') \<and>
     data ''ReportingPeriod'' = Some (PInt 3) \<and>
     data ''ReportingYear'' = Some (PInt 2024) \<and>
     data ''SalesEntryLines'' = Some (PList [PDict line]) \<and>
     line ''VATCode'' = Some (PStr ''2  '')"
proof (rule assemble_example)
  show "ensure_customer (get_customer (demo_invoice [demo_line ''1234'' 21]))
          (demo_state (Some (PStr ''c-1'')) []) =
        (Inr (PStr ''c-1''), \<lparr>remote = demo_world (Some (PStr ''c-1'')) [], trace = [Customer_get_guid]\<rparr>)"
    by (simp add: demo_defs ensure_customer_def perform_eq)
  show "ledgeraccounts_filter demo_api {''1234''}
          (remote \<lparr>remote = demo_world (Some (PStr ''c-1'')) [], trace = [Customer_get_guid]\<rparr>) =
        (Inr [\<lparr>account_Code = ''1234'', account_ID = PStr ''g-1234''\<rparr>], demo_world (Some (PStr ''c-1'')) [])"
    by (simp add: demo_defs)
qed (simp_all add: demo_defs)

subsection \<open>The entries of the ledger lines\<close>

text \<open>
  \<^bold>\<open>C10.\<close> When \<^verbatim>\<open>assemble()\<close> succeeds, \<^verbatim>\<open>SalesEntryLines\<close> holds one entry for
  each ledger line, in the order of the ledger lines; the \<^verbatim>\<open>AmountDC\<close> and
  \<^verbatim>\<open>AmountFC\<close> of an entry are the decimal string of the amount without VAT of its
  line (and its \<^verbatim>\<open>Description\<close> is that of its line), whereas the \<^verbatim>\<open>AmountDC\<close> and
  \<^verbatim>\<open>AmountFC\<close> of the payload are the decimal string of the total with VAT.
\<close>

theorem assemble_entries_in_order:
  assumes "assemble api self s = (Inr data, s')"
  shows "\<exists>entries.
           data ''SalesEntryLines'' = Some (PList (map PDict entries)) \<and>
           length entries = length (get_ledger_lines self) \<and>
           (\<forall>i < length (get_ledger_lines self).
              (entries ! i) ''AmountDC'' =
                Some (PStr (str_decimal (total_amount_excl_vat (get_ledger_lines self ! i)))) \<and>
              (entries ! i) ''AmountFC'' =
                Some (PStr (str_decimal (total_amount_excl_vat (get_ledger_lines self ! i)))) \<and>
              (entries ! i) ''Description'' =
                Some (PStr (description (get_ledger_lines self ! i)))) \<and>
           data ''AmountDC'' = Some (PStr (str_decimal (get_total_amount_incl_vat self))) \<and>
           data ''AmountFC'' = Some (PStr (str_decimal (get_total_amount_incl_vat self)))"
proof -
  from assemble_entries [OF assms] obtain ids entries where
    data: "data ''SalesEntryLines'' = Some (PList (map PDict entries))"
    and all2: "list_all2 (\<lambda>l e. assemble_line ids l = Inr e) (get_ledger_lines self) entries"
    by blast
  have len: "length entries = length (get_ledger_lines self)"
    using all2 by (simp add: list_all2_lengthD)
  have nth: "assemble_line ids (get_ledger_lines self ! i) = Inr (entries ! i)"
    if "i < length (get_ledger_lines self)" for i
    using list_all2_nthD [OF all2 that] .
  have fields:
    "\<forall>i < length (get_ledger_lines self).
       (entries ! i) ''AmountDC'' =
         Some (PStr (str_decimal (total_amount_excl_vat (get_ledger_lines self ! i)))) \<and>
       (entries ! i) ''AmountFC'' =
         Some (PStr (str_decimal (total_amount_excl_vat (get_ledger_lines self ! i)))) \<and>
       (entries ! i) ''Description'' =
         Some (PStr (description (get_ledger_lines self ! i)))"
  proof (intro allI impI)
    fix i
    assume "i < length (get_ledger_lines self)"
    from assemble_line_fields(1,2,3) [OF nth [OF this]] show
      "(entries ! i) ''AmountDC'' =
         Some (PStr (str_decimal (total_amount_excl_vat (get_ledger_lines self ! i)))) \<and>
       (entries ! i) ''AmountFC'' =
         Some (PStr (str_decimal (total_amount_excl_vat (get_ledger_lines self ! i)))) \<and>
       (entries ! i) ''Description'' =
         Some (PStr (description (get_ledger_lines self ! i)))"
      by simp
  qed
  from data len fields assemble_amounts(1,2) [OF assms] show ?thesis by blast
qed

theorem assemble_entries_in_order_witness:
  "\<exists>data s'.
     assemble demo_api
       (demo_invoice [demo_line ''1234'' 21,
                      (demo_line ''1234'' 0)\<lparr>total_amount_excl_vat := Decimal True 5 0,
                                             description := ''Refund''\<rparr>])
       (demo_state None []) = (Inr data, s') \<and>
     (\<exists>entries.
        data ''SalesEntryLines'' = Some (PList (map PDict entries)) \<and>
        length entries = 2 \<and>
        (entries ! 0) ''AmountDC'' = Some (PStr ''100.00'') \<and>
        (entries ! 0) ''Description'' = Some (PStr ''Goods'') \<and>
        (entries ! 1) ''AmountDC'' = Some (PStr ''-5'') \<and>
        (entries ! 1) ''Description'' = Some (PStr ''Refund'') \<and>
        data ''AmountDC'' = Some (PStr ''121.00''))"
proof -
  let ?self = "demo_invoice [demo_line ''1234'' 21,
                  (demo_line ''1234'' 0)\<lparr>total_amount_excl_vat := Decimal True 5 0,
                                         description := ''Refund''\<rparr>]"
  have "\<exists>data s'. assemble demo_api ?self (demo_state None []) = (Inr data, s')"
    by (simp add: run_defs demo_defs)
  then obtain data s' where ok: "assemble demo_api ?self (demo_state None []) = (Inr data, s')"
    by blast
  have strs: "str_decimal (Decimal False 10000 (- 2)) = ''100.00''"
    "str_decimal (Decimal True 5 0) = ''-5''"
    "str_decimal (Decimal False 12100 (- 2)) = ''121.00''"
    by (simp_all add: str_decimal_def digits.simps digit_char_def Let_def)
  from assemble_entries_in_order [OF ok] obtain entries where
    e: "data ''SalesEntryLines'' = Some (PList (map PDict entries))"
      "length entries = length (get_ledger_lines ?self)"
      "\<forall>i < length (get_ledger_lines ?self).
         (entries ! i) ''AmountDC'' =
           Some (PStr (str_decimal (total_amount_excl_vat (get_ledger_lines ?self ! i)))) \<and>
         (entries ! i) ''AmountFC'' =
           Some (PStr (str_decimal (total_amount_excl_vat (get_ledger_lines ?self ! i)))) \<and>
         (entries ! i) ''Description'' =
           Some (PStr (description (get_ledger_lines ?self ! i)))"
      "data ''AmountDC'' = Some (PStr (str_decimal (get_total_amount_incl_vat ?self)))"
    by blast
  have "(entries ! 0) ''AmountDC'' = Some (PStr ''100.00'')"
    "(entries ! 0) ''Description'' = Some (PStr ''Goods'')"
    using e(3) [rule_format, of 0] by (simp_all add: strs demo_defs)
  moreover have "(entries ! 1) ''AmountDC'' = Some (PStr ''-5'')"
    "(entries ! 1) ''Description'' = Some (PStr ''Refund'')"
    using e(3) [rule_format, of 1] by (simp_all add: strs demo_defs)
  moreover have "length entries = 2"
    using e(2) by (simp add: demo_defs)
  moreover have "data ''AmountDC'' = Some (PStr ''121.00'')"
    using e(4) by (simp add: strs demo_defs)
  ultimately show ?thesis
    using ok e(1) by blast
qed

subsection \<open>Create or update\<close>



text \<open>
  \<^bold>\<open>C9.\<close> The choice is made by the truth value of the identifier: when the lookup
  succeeds with a false identifier (\<^verbatim>\<open>None\<close> or the empty string, say),
  \<^verbatim>\<open>commit()\<close> calls \<^verbatim>\<open>assemble()\<close> and creates the invoice with the whole payload,
  line items included, and its outcome is that of a run whose lookup raised
  \<^verbatim>\<open>ObjectDoesNotExist\<close> and left the same state.
\<close>

theorem commit_falsy_guid_creates:
  assumes lookup: "get_guid api self s = (Inr g, s1)"
    and falsy: "\<not> truthy g"
  shows "commit api self s =
           (case assemble api self s1 of
              (Inl e, s2) \<Rightarrow> (Inl e, s2)
            | (Inr data, s2) \<Rightarrow> perform (Invoices_create data) (invoices_create api data) s2) \<and>
         (\<forall>data s2. assemble api self s1 = (Inr data, s2) \<longrightarrow>
            filter is_submission (events_of (commit api self) s) = [Invoices_create data] \<and>
            (\<exists>entries. data ''SalesEntryLines'' = Some (PList (map PDict entries)) \<and>
                       length entries = length (get_ledger_lines self))) \<and>
         (\<forall>api' s0.
            get_guid api' self s0 = (Inl ObjectDoesNotExist, s1) \<and>
            invoices_create api' = invoices_create api \<and>
            assemble api' self s1 = assemble api self s1 \<longrightarrow>
            commit api' self s0 = commit api self s)"
proof (intro conjI allI impI)
  have path: "Inr g = Inl ObjectDoesNotExist \<and> g = PNone \<or> (Inr g :: error + pyval) = Inr g"
    by simp
  show eq: "commit api self s =
      (case assemble api self s1 of
         (Inl e, s2) \<Rightarrow> (Inl e, s2)
       | (Inr data, s2) \<Rightarrow> perform (Invoices_create data) (invoices_create api data) s2)"
    using commit_after_lookup [OF lookup path] falsy
    by (simp add: submit_def split: prod.splits sum.splits)
  {
    fix data s2
    assume ok: "assemble api self s1 = (Inr data, s2)"
    show "filter is_submission (events_of (commit api self) s) = [Invoices_create data]"
      by (rule commit_creates(3) [OF lookup path falsy ok])
    show "\<exists>entries. data ''SalesEntryLines'' = Some (PList (map PDict entries)) \<and>
                    length entries = length (get_ledger_lines self)"
      by (rule assemble_entries_length [OF ok])
  }
  fix api' :: "'a api" and s0
  assume h: "get_guid api' self s0 = (Inl ObjectDoesNotExist, s1) \<and>
    invoices_create api' = invoices_create api \<and>
    assemble api' self s1 = assemble api self s1"
  then have l: "get_guid api' self s0 = (Inl ObjectDoesNotExist, s1)"
    and ic: "invoices_create api' = invoices_create api"
    and as: "assemble api' self s1 = assemble api self s1"
    by simp_all
  have p: "Inl ObjectDoesNotExist = Inl ObjectDoesNotExist \<and> PNone = PNone \<or>
      (Inl ObjectDoesNotExist :: error + pyval) = Inr PNone"
    by simp
  have c': "commit api' self s0 =
      (case assemble api' self s1 of
         (Inl e, s2) \<Rightarrow> (Inl e, s2)
       | (Inr data, s2) \<Rightarrow> perform (Invoices_create data) (invoices_create api' data) s2)"
    using commit_after_lookup [OF l p]
    by (simp add: submit_def split: prod.splits sum.splits)
  show "commit api' self s0 = commit api self s"
    unfolding c' eq as ic ..
qed

theorem commit_falsy_guid_creates_witness:
  "(\<exists>data entries.
      filter is_submission
        (events_of (commit demo_api (demo_invoice [demo_line ''1234'' 21]))
           (demo_state (Some (PStr ''c-0'')) [(''INV-001'', [''EntryID'' \<mapsto> PNone])])) =
        [Invoices_create data] \<and>
      data ''SalesEntryLines'' = Some (PList (map PDict entries)) \<and> length entries = 1) \<and>
   (\<exists>data entries.
      filter is_submission
        (events_of (commit demo_api (demo_invoice [demo_line ''1234'' 21]))
           (demo_state (Some (PStr ''c-0'')) [(''INV-001'', [''EntryID'' \<mapsto> (PStr [])])])) =
        [Invoices_create data] \<and>
      data ''SalesEntryLines'' = Some (PList (map PDict entries)) \<and> length entries = 1) \<and>
   commit (demo_api\<lparr>invoices_get := \<lambda>n w. (Inl ObjectDoesNotExist, w)\<rparr>)
     (demo_invoice [demo_line ''1234'' 21])
     (demo_state (Some (PStr ''c-0'')) [(''INV-001'', [''EntryID'' \<mapsto> PNone])]) =
   commit demo_api (demo_invoice [demo_line ''1234'' 21])
     (demo_state (Some (PStr ''c-0'')) [(''INV-001'', [''EntryID'' \<mapsto> PNone])])"
proof -
  let ?I = "demo_invoice [demo_line ''1234'' 21]"
  let ?c = "Some (PStr ''c-0'')"
  let ?api' = "demo_api\<lparr>invoices_get := \<lambda>n w. (Inl ObjectDoesNotExist, w)\<rparr>"
  have falsy: "\<not> truthy PNone" "\<not> truthy (PStr [])"
    by simp_all
  have len: "length (get_ledger_lines ?I) = 1"
    by (simp add: demo_defs)
  have part: "\<exists>data entries.
      filter is_submission
        (events_of (commit demo_api ?I) (demo_state ?c [(''INV-001'', [''EntryID'' \<mapsto> g])])) =
        [Invoices_create data] \<and>
      data ''SalesEntryLines'' = Some (PList (map PDict entries)) \<and> length entries = 1"
    if g: "\<not> truthy g" for g
  proof -
    obtain d t where a:
      "assemble demo_api ?I
         \<lparr>remote = demo_world ?c [(''INV-001'', [''EntryID'' \<mapsto> g])],
          trace = [Invoices_get ''INV-001'']\<rparr> = (Inr d, t)"
      using demo_assemble_succeeds by blast
    from commit_falsy_guid_creates [OF demo_get_guid_found g, THEN conjunct2, THEN conjunct1,
        rule_format, OF a]
    show ?thesis
      unfolding len by blast
  qed
  let ?s = "demo_state ?c [(''INV-001'', [''EntryID'' \<mapsto> PNone])]"
  have l': "get_guid ?api' ?I ?s =
      (Inl ObjectDoesNotExist,
       \<lparr>remote = demo_world ?c [(''INV-001'', [''EntryID'' \<mapsto> PNone])],
        trace = [Invoices_get ''INV-001'']\<rparr>)"
    by (simp add: get_guid_def perform_eq demo_defs)
  have same: "invoices_create ?api' = invoices_create demo_api"
    "assemble ?api' ?I s1 = assemble demo_api ?I s1" for s1
    by (simp_all add: assemble_other_api)
  from commit_falsy_guid_creates [OF demo_get_guid_found falsy(1), THEN conjunct2, THEN conjunct2,
      rule_format, OF conjI [OF l' conjI [OF same]]]
  have "commit ?api' ?I ?s = commit demo_api ?I ?s" .
  with part [OF falsy(1)] part [OF falsy(2)] show ?thesis
    by blast
qed

subsection \<open>The customer\<close>



subsection \<open>The ledger lookup\<close>

text \<open>
  \<^bold>\<open>C8.\<close> Once the customer is resolved, \<^verbatim>\<open>assemble()\<close> on an invoice with ledger
  lines calls \<^verbatim>\<open>ledgeraccounts.filter\<close> exactly once, with the set of the codes of
  the lines. The call is the collaborator's: the method ends in the remote state that
  the call left, an exception of the call is the exception of the method, the loop runs
  on the dictionary made of the records that the call returned, and in a payload the
  \<^verbatim>\<open>GLAccount\<close> of every entry is the \<^verbatim>\<open>ID\<close> of a returned record with the code of
  the line. On an invoice without ledger lines the method does not call it, leaves the
  state as the customer left it, and returns a payload whose \<^verbatim>\<open>SalesEntryLines\<close> is
  empty.
\<close>

theorem assemble_one_ledger_lookup:
  assumes reached: "1900 \<le> year (get_created_date self)"
    and customer: "ensure_customer (get_customer self) s = (Inr g, s1)"
    and lookup: "ledgeraccounts_filter api (set (map code (get_ledger_lines self))) (remote s1) =
                   (r, w2)"
  shows "(get_ledger_lines self \<noteq> [] \<longrightarrow>
            filter is_ledger_lookup (events_of (assemble api self) s) =
              [Ledgeraccounts_filter (set (map code (get_ledger_lines self)))] \<and>
            snd (assemble api self s) =
              \<lparr>remote = w2,
               trace = trace s1 @
                 [Ledgeraccounts_filter (set (map code (get_ledger_lines self)))]\<rparr> \<and>
            (\<forall>e. r = Inl e \<longrightarrow> fst (assemble api self s) = Inl e) \<and>
            (\<forall>rs. r = Inr rs \<longrightarrow>
               (\<forall>e. assemble_lines (Some (ledger_ids_of rs)) (get_ledger_lines self) [] = Inl e \<longrightarrow>
                  fst (assemble api self s) = Inl e) \<and>
               (\<forall>data. fst (assemble api self s) = Inr data \<longrightarrow>
                  (\<exists>entries.
                     data ''SalesEntryLines'' = Some (PList (map PDict entries)) \<and>
                     length entries = length (get_ledger_lines self) \<and>
                     (\<forall>i < length (get_ledger_lines self).
                        (entries ! i) ''GLAccount'' =
                          ledger_ids_of rs (code (get_ledger_lines self ! i)) \<and>
                        (\<exists>a \<in> set rs.
                           account_Code a = code (get_ledger_lines self ! i) \<and>
                           (entries ! i) ''GLAccount'' = Some (account_ID a))))))) \<and>
         (get_ledger_lines self = [] \<longrightarrow>
            filter is_ledger_lookup (events_of (assemble api self) s) = [] \<and>
            (\<exists>data. assemble api self s = (Inr data, s1) \<and>
                    data ''SalesEntryLines'' = Some (PList [])))"
proof -
  let ?lines = "get_ledger_lines self"
  let ?codes = "set (map code ?lines)"
  let ?s2 = "\<lparr>remote = w2, trace = trace s1 @ [Ledgeraccounts_filter ?codes]\<rparr>"
  obtain evs where evs: "trace s1 = trace s @ evs"
    "set evs \<subseteq> {Customer_get_guid, Customer_commit}"
    using ensure_customer_trace [of "get_customer self" s] customer by auto
  then have none: "filter is_ledger_lookup evs = []"
    by (auto simp: filter_empty_conv)
  have events: "filter is_ledger_lookup (events_of (assemble api self) s) =
      (if ?lines = [] then [] else [Ledgeraccounts_filter ?codes])"
    by (simp add: assemble_events [OF reached customer evs(1)] none)
  have empty_case:
    "\<exists>data. assemble api self s = (Inr data, s1) \<and> data ''SalesEntryLines'' = Some (PList [])"
    if empty: "?lines = []"
  proof -
    have fetch: "fetch_ledger_ids api ?lines s1 = (Inr None, s1)"
      by (simp add: empty fetch_ledger_ids_empty)
    have loop: "assemble_lines None ?lines [] = Inr []"
      by (simp add: empty)
    from assemble_succeeds [OF reached customer fetch loop]
    obtain data where ok: "assemble api self s = (Inr data, s1)" ..
    from assemble_InrD [OF ok] customer fetch loop
    have "data ''SalesEntryLines'' = Some (PList [])" by auto
    with ok show ?thesis by blast
  qed
  have fetch: "fetch_ledger_ids api ?lines s1 =
      (map_sum id (\<lambda>rs. Some (ledger_ids_of rs)) r, ?s2)"
    if ne: "?lines \<noteq> []"
    using fetch_ledger_ids_nonempty [OF ne, of api s1] lookup by simp
  have state: "snd (assemble api self s) = ?s2" if ne: "?lines \<noteq> []"
    by (rule assemble_state_after_fetch [OF reached customer fetch [OF ne]])
  have raised: "fst (assemble api self s) = Inl e" if ne: "?lines \<noteq> []" and r: "r = Inl e" for e
    using assemble_fetch_fails [OF reached customer, of api e ?s2] fetch [OF ne] r by simp
  have loop_fails: "fst (assemble api self s) = Inl e"
    if ne: "?lines \<noteq> []" and r: "r = Inr rs"
      and l: "assemble_lines (Some (ledger_ids_of rs)) ?lines [] = Inl e" for rs e
    using assemble_loop_fails [OF reached customer _ l, of api ?s2] fetch [OF ne] r by simp
  have accounts: "\<exists>entries.
      data ''SalesEntryLines'' = Some (PList (map PDict entries)) \<and>
      length entries = length ?lines \<and>
      (\<forall>i < length ?lines.
         (entries ! i) ''GLAccount'' = ledger_ids_of rs (code (?lines ! i)) \<and>
         (\<exists>a \<in> set rs. account_Code a = code (?lines ! i) \<and>
            (entries ! i) ''GLAccount'' = Some (account_ID a)))"
    if ne: "?lines \<noteq> []" and r: "r = Inr rs" and d: "fst (assemble api self s) = Inr data"
    for rs data
  proof -
    have ok: "assemble api self s = (Inr data, snd (assemble api self s))"
      using d by (simp add: prod_eq_iff)
    from assemble_InrD [OF ok] customer obtain ids out where
      f: "fetch_ledger_ids api ?lines s1 = (Inr ids, snd (assemble api self s))"
      and out: "assemble_lines ids ?lines [] = Inr out"
      and sel: "data ''SalesEntryLines'' = Some (PList out)"
      by auto
    have ids: "ids = Some (ledger_ids_of rs)"
      using f fetch [OF ne] r by simp
    from out obtain entries where
      all2: "list_all2 (\<lambda>l e. assemble_line ids l = Inr e) ?lines entries"
      and o: "out = map PDict entries"
      by (auto simp: assemble_lines_Inr)
    have len: "length entries = length ?lines"
      using all2 by (simp add: list_all2_lengthD)
    have acc: "\<forall>i < length ?lines.
        (entries ! i) ''GLAccount'' = ledger_ids_of rs (code (?lines ! i)) \<and>
        (\<exists>a \<in> set rs. account_Code a = code (?lines ! i) \<and>
           (entries ! i) ''GLAccount'' = Some (account_ID a))"
    proof (intro allI impI)
      fix i
      assume "i < length ?lines"
      from assemble_line_fields(5) [OF list_all2_nthD [OF all2 this]] ids
      have g: "(entries ! i) ''GLAccount'' = ledger_ids_of rs (code (?lines ! i))"
        and some: "ledger_ids_of rs (code (?lines ! i)) \<noteq> None"
        by auto
      from some obtain v where v: "ledger_ids_of rs (code (?lines ! i)) = Some v"
        by auto
      from ledger_ids_of_record [OF v] g v
      show "(entries ! i) ''GLAccount'' = ledger_ids_of rs (code (?lines ! i)) \<and>
        (\<exists>a \<in> set rs. account_Code a = code (?lines ! i) \<and>
           (entries ! i) ''GLAccount'' = Some (account_ID a))"
        by auto
    qed
    from sel o len acc show ?thesis
      by blast
  qed
  show ?thesis
  proof (cases "?lines = []")
    case True
    with events empty_case show ?thesis by simp
  next
    case False
    from events False have ev: "filter is_ledger_lookup (events_of (assemble api self) s) =
        [Ledgeraccounts_filter ?codes]"
      by simp
    from False ev state [OF False] raised [OF False] loop_fails [OF False] accounts [OF False]
    show ?thesis
      by blast
  qed
qed

theorem assemble_one_ledger_lookup_witness:
  "filter is_ledger_lookup
     (events_of (assemble demo_api
        (demo_invoice [demo_line ''1234'' 21, demo_line ''1234'' 0, demo_line ''8000'' 0]))
        (demo_state (Some (PStr ''c-0'')) [])) =
     [Ledgeraccounts_filter {''1234'', ''8000''}] \<and>
   snd (assemble demo_api (demo_invoice [demo_line ''1234'' 21])
          (demo_state (Some (PStr ''c-0'')) [])) =
     \<lparr>remote = demo_world (Some (PStr ''c-0'')) [],
      trace = [Customer_get_guid, Ledgeraccounts_filter {''1234''}]\<rparr> \<and>
   (\<exists>data entries.
      fst (assemble demo_api (demo_invoice [demo_line ''1234'' 21])
             (demo_state (Some (PStr ''c-0'')) [])) = Inr data \<and>
      data ''SalesEntryLines'' = Some (PList (map PDict entries)) \<and>
      (entries ! 0) ''GLAccount'' = Some (PStr ''g-1234'')) \<and>
   fst (assemble
          (demo_api\<lparr>ledgeraccounts_filter := \<lambda>codes w. (Inl (RemoteFailure ''down''), w)\<rparr>)
          (demo_invoice [demo_line ''1234'' 21]) (demo_state (Some (PStr ''c-0'')) [])) =
     Inl (RemoteFailure ''down'') \<and>
   filter is_ledger_lookup
     (events_of (assemble demo_api (demo_invoice [])) (demo_state (Some (PStr ''c-0'')) [])) = [] \<and>
   (\<exists>data. assemble demo_api (demo_invoice []) (demo_state (Some (PStr ''c-0'')) []) =
             (Inr data, \<lparr>remote = demo_world (Some (PStr ''c-0'')) [],
                         trace = [Customer_get_guid]\<rparr>) \<and>
           data ''SalesEntryLines'' = Some (PList []))"
proof -
  let ?s = "demo_state (Some (PStr ''c-0'')) []"
  let ?w = "demo_world (Some (PStr ''c-0'')) []"
  let ?s1 = "\<lparr>remote = ?w, trace = [Customer_get_guid]\<rparr>"
  let ?down = "demo_api\<lparr>ledgeraccounts_filter := \<lambda>codes w. (Inl (RemoteFailure ''down''), w)\<rparr>"
  let ?I3 = "demo_invoice [demo_line ''1234'' 21, demo_line ''1234'' 0, demo_line ''8000'' 0]"
  let ?I1 = "demo_invoice [demo_line ''1234'' 21]"
  let ?I0 = "demo_invoice [] :: world invoice"
  let ?rs = "[\<lparr>account_Code = ''1234'', account_ID = PStr ''g-1234''\<rparr>]"
  have c: "ensure_customer (get_customer (demo_invoice ls)) ?s = (Inr (PStr ''c-0''), ?s1)" for ls
    by (rule demo_customer_found)
  have l3: "ledgeraccounts_filter demo_api (set (map code (get_ledger_lines ?I3))) (remote ?s1) =
      (Inr ?rs, ?w)"
    and l1: "ledgeraccounts_filter demo_api (set (map code (get_ledger_lines ?I1))) (remote ?s1) =
      (Inr ?rs, ?w)"
    and l0: "ledgeraccounts_filter demo_api (set (map code (get_ledger_lines ?I0))) (remote ?s1) =
      (Inr [], ?w)"
    and ld: "ledgeraccounts_filter ?down (set (map code (get_ledger_lines ?I1))) (remote ?s1) =
      (Inl (RemoteFailure ''down''), ?w)"
    by (simp_all add: demo_defs)
  have ne: "get_ledger_lines ?I3 \<noteq> []" "get_ledger_lines ?I1 \<noteq> []"
    and e: "get_ledger_lines ?I0 = []"
    by (simp_all add: demo_defs)
  note t3 = assemble_one_ledger_lookup [OF demo_reached c l3, THEN conjunct1, THEN mp, OF ne(1)]
  note t1 = assemble_one_ledger_lookup [OF demo_reached c l1, THEN conjunct1, THEN mp, OF ne(2)]
  note td = assemble_one_ledger_lookup [OF demo_reached c ld, THEN conjunct1, THEN mp, OF ne(2)]
  note t0 = assemble_one_ledger_lookup [OF demo_reached c l0, THEN conjunct2, THEN mp, OF e]
  have a: "filter is_ledger_lookup (events_of (assemble demo_api ?I3) ?s) =
      [Ledgeraccounts_filter {''1234'', ''8000''}]"
    using t3 [THEN conjunct1] by (simp add: demo_invoice_def demo_line_def insert_commute)
  have b: "snd (assemble demo_api ?I1 ?s) =
      \<lparr>remote = ?w, trace = [Customer_get_guid, Ledgeraccounts_filter {''1234''}]\<rparr>"
    using t1 [THEN conjunct2, THEN conjunct1] by (simp add: demo_invoice_def demo_line_def)
  have "\<exists>data s'. assemble demo_api ?I1 ?s = (Inr data, s')"
    by (simp add: run_defs demo_defs)
  then obtain data where ok: "fst (assemble demo_api ?I1 ?s) = Inr data"
    by auto
  from t1 [THEN conjunct2, THEN conjunct2, THEN conjunct2, rule_format, OF refl, THEN conjunct2,
      rule_format, OF ok]
  obtain entries where
    sel: "data ''SalesEntryLines'' = Some (PList (map PDict entries))"
    and acc: "\<forall>i < length (get_ledger_lines ?I1).
      (entries ! i) ''GLAccount'' = ledger_ids_of ?rs (code (get_ledger_lines ?I1 ! i)) \<and>
      (\<exists>a \<in> set ?rs. account_Code a = code (get_ledger_lines ?I1 ! i) \<and>
         (entries ! i) ''GLAccount'' = Some (account_ID a))"
    by blast
  have "(entries ! 0) ''GLAccount'' = Some (PStr ''g-1234'')"
    using acc [rule_format, of 0] by (simp add: demo_invoice_def demo_line_def ledger_ids_of_def)
  with ok sel have c1: "\<exists>data entries.
      fst (assemble demo_api ?I1 ?s) = Inr data \<and>
      data ''SalesEntryLines'' = Some (PList (map PDict entries)) \<and>
      (entries ! 0) ''GLAccount'' = Some (PStr ''g-1234'')"
    by blast
  have d: "fst (assemble ?down ?I1 ?s) = Inl (RemoteFailure ''down'')"
    using td [THEN conjunct2, THEN conjunct2, THEN conjunct1, rule_format, OF refl] .
  from a b c1 d t0 show ?thesis
    by blast
qed

subsection \<open>The failures of the loop over the ledger lines\<close>

text \<open>
  The body of the loop looks the ledger code up before it looks at the VAT percentage,
  and the loop stops at the first line that fails. So which exception \<^verbatim>\<open>assemble()\<close>
  raises is decided by the first line with a code that the lookup did not return or
  with a VAT percentage other than 0 and 21, and, on that line, by the code first.
\<close>

text \<open>
  \<^bold>\<open>C2\<close>, as stated, fails: a line with the VAT percentage 7 whose code the lookup
  did not return makes \<^verbatim>\<open>assemble()\<close> raise \<^verbatim>\<open>ExactOnlineError\<close>, not the
  unsupported-input failure \<^verbatim>\<open>NotImplementedError\<close>.
\<close>

theorem vat_code_unsupported_counterexample:
  "vat_percentage (demo_line ''9999'' 7) \<noteq> 0 \<and>
   vat_percentage (demo_line ''9999'' 7) \<noteq> 21 \<and>
   get_ledger_lines (demo_invoice [demo_line ''9999'' 7]) = [demo_line ''9999'' 7] \<and>
   fst (assemble demo_api (demo_invoice [demo_line ''9999'' 7])
          (demo_state (Some (PStr ''c-0'')) [])) =
     Inl (ExactOnlineError ''Cannot submit invoice with ledger code 9999'')"
  by (simp add: run_defs demo_defs)

text \<open>
  \<^bold>\<open>C2\<close>, amended. For a ledger line that the loop reaches (every earlier line has a
  code that the lookup returned and a VAT percentage of 0 or 21) and whose own code the
  lookup returned: with the VAT percentage 0 the entry of the line in a payload has the
  \<^verbatim>\<open>VATCode\<close> \<^verbatim>\<open>"0  "\<close>, with 21 it has \<^verbatim>\<open>"2  "\<close>, and with any other percentage
  \<^verbatim>\<open>assemble()\<close> raises \<^verbatim>\<open>NotImplementedError\<close> for that percentage, right after the
  ledger lookup, and returns no payload.
\<close>

theorem vat_code_of_reached_line:
  assumes reached: "1900 \<le> year (get_created_date self)"
    and customer: "ensure_customer (get_customer self) s = (Inr g, s1)"
    and lookup: "ledgeraccounts_filter api (set (map code (get_ledger_lines self))) (remote s1) =
                   (Inr rs, w2)"
    and split: "get_ledger_lines self = pre @ l # post"
    and pre: "\<forall>p \<in> set pre. code p \<in> account_Code ` set rs \<and>
                (vat_percentage p = 0 \<or> vat_percentage p = 21)"
    and resolves: "code l \<in> account_Code ` set rs"
  shows "(vat_percentage l = 0 \<longrightarrow>
            (\<forall>data s'. assemble api self s = (Inr data, s') \<longrightarrow>
               (\<exists>entries. data ''SalesEntryLines'' = Some (PList (map PDict entries)) \<and>
                          length pre < length entries \<and>
                          (entries ! length pre) ''VATCode'' = Some (PStr ''0  '')))) \<and>
         (vat_percentage l = 21 \<longrightarrow>
            (\<forall>data s'. assemble api self s = (Inr data, s') \<longrightarrow>
               (\<exists>entries. data ''SalesEntryLines'' = Some (PList (map PDict entries)) \<and>
                          length pre < length entries \<and>
                          (entries ! length pre) ''VATCode'' = Some (PStr ''2  '')))) \<and>
         (vat_percentage l \<noteq> 0 \<and> vat_percentage l \<noteq> 21 \<longrightarrow>
            assemble api self s =
              (Inl (NotImplementedError (''Unknown VAT: '' @ str_int (vat_percentage l))),
               \<lparr>remote = w2,
                trace = trace s1 @
                  [Ledgeraccounts_filter (set (map code (get_ledger_lines self)))]\<rparr>))"
proof -
  have code: "\<exists>entries. data ''SalesEntryLines'' = Some (PList (map PDict entries)) \<and>
        length pre < length entries \<and>
        (entries ! length pre) ''VATCode'' =
          Some (PStr (if vat_percentage l = 0 then ''0  '' else ''2  ''))"
    if ok: "assemble api self s = (Inr data, s')" for data s'
  proof -
    from assemble_entries [OF ok] obtain ids entries where
      data: "data ''SalesEntryLines'' = Some (PList (map PDict entries))"
      and all2: "list_all2 (\<lambda>l e. assemble_line ids l = Inr e) (get_ledger_lines self) entries"
      by blast
    have len: "length pre < length entries"
      using list_all2_lengthD [OF all2] by (simp add: split)
    have i: "length pre < length (get_ledger_lines self)"
      by (simp add: split)
    have "assemble_line ids l = Inr (entries ! length pre)"
      using list_all2_nthD [OF all2 i] by (simp add: split)
    from assemble_line_fields(4) [OF this] data len show ?thesis
      by blast
  qed
  have fails: "assemble api self s =
      (Inl (NotImplementedError (''Unknown VAT: '' @ str_int (vat_percentage l))),
       \<lparr>remote = w2,
        trace = trace s1 @ [Ledgeraccounts_filter (set (map code (get_ledger_lines self)))]\<rparr>)"
    if other: "vat_percentage l \<noteq> 0" "vat_percentage l \<noteq> 21"
  proof -
    from resolves obtain gid where "ledger_ids_of rs (code l) = Some gid"
      using ledger_ids_of_None [of rs "code l"] by auto
    from assemble_line_unknown_vat [where ids = "ledger_ids_of rs" and l = l, OF this other]
    show ?thesis
      by (rule assemble_first_bad_line [OF reached customer lookup split pre])
  qed
  from code fails show ?thesis
    by (auto split: if_splits)
qed

theorem vat_code_of_reached_line_witness:
  "(\<exists>data s' entries.
      assemble demo_api (demo_invoice [demo_line ''1234'' 0, demo_line ''1234'' 21])
        (demo_state (Some (PStr ''c-0'')) []) = (Inr data, s') \<and>
      data ''SalesEntryLines'' = Some (PList (map PDict entries)) \<and>
      (entries ! 0) ''VATCode'' = Some (PStr ''0  '')) \<and>
   (\<exists>data s' entries.
      assemble demo_api (demo_invoice [demo_line ''1234'' 0, demo_line ''1234'' 21])
        (demo_state (Some (PStr ''c-0'')) []) = (Inr data, s') \<and>
      data ''SalesEntryLines'' = Some (PList (map PDict entries)) \<and>
      (entries ! 1) ''VATCode'' = Some (PStr ''2  '')) \<and>
   fst (assemble demo_api (demo_invoice [demo_line ''1234'' 0, demo_line ''1234'' 7])
          (demo_state (Some (PStr ''c-0'')) [])) =
     Inl (NotImplementedError ''Unknown VAT: 7'')"
proof -
  let ?s = "demo_state (Some (PStr ''c-0'')) []"
  let ?I = "demo_invoice [demo_line ''1234'' 0, demo_line ''1234'' 21]"
  let ?J = "demo_invoice [demo_line ''1234'' 0, demo_line ''1234'' 7]"
  let ?rs = "[\<lparr>account_Code = ''1234'', account_ID = PStr ''g-1234''\<rparr>]"
  have lookup: "ledgeraccounts_filter demo_api (set (map code (get_ledger_lines (demo_invoice ls))))
      (remote \<lparr>remote = demo_world (Some (PStr ''c-0'')) [], trace = [Customer_get_guid]\<rparr>) =
      (Inr ?rs, demo_world (Some (PStr ''c-0'')) [])"
    if "ls = [demo_line ''1234'' 0, demo_line ''1234'' p]" for ls p
    using that by (simp add: demo_defs)
  have splitI0: "get_ledger_lines ?I = [] @ demo_line ''1234'' 0 # [demo_line ''1234'' 21]"
    and splitI1: "get_ledger_lines ?I = [demo_line ''1234'' 0] @ demo_line ''1234'' 21 # []"
    and splitJ: "get_ledger_lines ?J = [demo_line ''1234'' 0] @ demo_line ''1234'' 7 # []"
    by (simp_all add: demo_invoice_def)
  have pre0: "\<forall>p \<in> set []. code p \<in> account_Code ` set ?rs \<and>
      (vat_percentage p = 0 \<or> vat_percentage p = 21)"
    and pre1: "\<forall>p \<in> set [demo_line ''1234'' 0]. code p \<in> account_Code ` set ?rs \<and>
      (vat_percentage p = 0 \<or> vat_percentage p = 21)"
    and res: "code (demo_line ''1234'' p) \<in> account_Code ` set ?rs" for p
    by (simp_all add: demo_line_def)
  have "\<exists>data s'. assemble demo_api ?I ?s = (Inr data, s')"
    by (simp add: run_defs demo_defs)
  then obtain data s' where ok: "assemble demo_api ?I ?s = (Inr data, s')"
    by blast
  note zero =
    vat_code_of_reached_line [OF demo_reached demo_customer_found lookup [OF refl] splitI0 pre0 res,
      THEN conjunct1, rule_format, OF _ ok]
  note twentyone =
    vat_code_of_reached_line [OF demo_reached demo_customer_found lookup [OF refl] splitI1 pre1 res,
      THEN conjunct2, THEN conjunct1, rule_format, OF _ ok]
  note other =
    vat_code_of_reached_line [OF demo_reached demo_customer_found lookup [OF refl] splitJ pre1 res,
      THEN conjunct2, THEN conjunct2, rule_format]
  have a: "\<exists>data s' entries. assemble demo_api ?I ?s = (Inr data, s') \<and>
      data ''SalesEntryLines'' = Some (PList (map PDict entries)) \<and>
      (entries ! 0) ''VATCode'' = Some (PStr ''0  '')"
    using zero ok by (auto simp: demo_line_def)
  have b: "\<exists>data s' entries. assemble demo_api ?I ?s = (Inr data, s') \<and>
      data ''SalesEntryLines'' = Some (PList (map PDict entries)) \<and>
      (entries ! 1) ''VATCode'' = Some (PStr ''2  '')"
    using twentyone ok by (auto simp: demo_line_def)
  have c: "fst (assemble demo_api ?J ?s) = Inl (NotImplementedError ''Unknown VAT: 7'')"
    using other by (simp add: demo_line_def str_int_def digits.simps digit_char_def)
  from a b c show ?thesis by blast
qed

text \<open>
  \<^bold>\<open>C3\<close>, as stated, fails: with a first line of 7 percent VAT whose code is found and
  a second line whose code the lookup did not return, \<^verbatim>\<open>assemble()\<close> raises
  \<^verbatim>\<open>NotImplementedError\<close>, not \<^verbatim>\<open>ExactOnlineError\<close>.
\<close>

theorem absent_ledger_code_counterexample:
  "fst (ledgeraccounts_filter demo_api
          (set (map code (get_ledger_lines (demo_invoice [demo_line ''1234'' 7, demo_line ''9999'' 0]))))
          (demo_world (Some (PStr ''c-0'')) [])) =
     Inr [\<lparr>account_Code = ''1234'', account_ID = PStr ''g-1234''\<rparr>] \<and>
   fst (assemble demo_api (demo_invoice [demo_line ''1234'' 7, demo_line ''9999'' 0])
          (demo_state (Some (PStr ''c-0'')) [])) =
     Inl (NotImplementedError ''Unknown VAT: 7'')"
  by (simp add: run_defs demo_defs str_int_def digits.simps digit_char_def)

text \<open>
  \<^bold>\<open>C3\<close>, amended. When the code of a ledger line is absent from the result of the
  lookup, \<^verbatim>\<open>assemble()\<close> fails and returns no payload. For the first line with an
  absent code: when every earlier line has a VAT percentage of 0 or 21 the failure is
  the \<^verbatim>\<open>ExactOnlineError\<close> that names the code; otherwise it is the
  \<^verbatim>\<open>NotImplementedError\<close> of the first earlier line with another percentage.
\<close>

theorem absent_ledger_code_aborts:
  assumes reached: "1900 \<le> year (get_created_date self)"
    and customer: "ensure_customer (get_customer self) s = (Inr g, s1)"
    and lookup: "ledgeraccounts_filter api (set (map code (get_ledger_lines self))) (remote s1) =
                   (Inr rs, w2)"
    and split: "get_ledger_lines self = pre @ l # post"
    and pre_codes: "\<forall>p \<in> set pre. code p \<in> account_Code ` set rs"
    and absent: "code l \<notin> account_Code ` set rs"
  shows "(\<exists>e. assemble api self s =
              (Inl e,
               \<lparr>remote = w2,
                trace = trace s1 @
                  [Ledgeraccounts_filter (set (map code (get_ledger_lines self)))]\<rparr>)) \<and>
         ((\<forall>p \<in> set pre. vat_percentage p = 0 \<or> vat_percentage p = 21) \<longrightarrow>
            assemble api self s =
              (Inl (ExactOnlineError (''Cannot submit invoice with ledger code '' @ code l)),
               \<lparr>remote = w2,
                trace = trace s1 @
                  [Ledgeraccounts_filter (set (map code (get_ledger_lines self)))]\<rparr>)) \<and>
         (\<forall>pre1 p pre2.
            pre = pre1 @ p # pre2 \<and>
            (\<forall>q \<in> set pre1. vat_percentage q = 0 \<or> vat_percentage q = 21) \<and>
            vat_percentage p \<noteq> 0 \<and> vat_percentage p \<noteq> 21 \<longrightarrow>
            assemble api self s =
              (Inl (NotImplementedError (''Unknown VAT: '' @ str_int (vat_percentage p))),
               \<lparr>remote = w2,
                trace = trace s1 @
                  [Ledgeraccounts_filter (set (map code (get_ledger_lines self)))]\<rparr>))"
proof -
  let ?s2 = "\<lparr>remote = w2,
      trace = trace s1 @ [Ledgeraccounts_filter (set (map code (get_ledger_lines self)))]\<rparr>"
  have first: "assemble api self s =
      (Inl (ExactOnlineError (''Cannot submit invoice with ledger code '' @ code l)), ?s2)"
    if vat: "\<forall>p \<in> set pre. vat_percentage p = 0 \<or> vat_percentage p = 21"
  proof -
    have pre: "\<forall>p \<in> set pre. code p \<in> account_Code ` set rs \<and>
        (vat_percentage p = 0 \<or> vat_percentage p = 21)"
      using pre_codes vat by blast
    have "ledger_ids_of rs (code l) = None"
      using absent by (simp add: ledger_ids_of_None)
    from assemble_line_absent [where ids = "ledger_ids_of rs" and l = l, OF this]
    show ?thesis
      by (rule assemble_first_bad_line [OF reached customer lookup split pre])
  qed
  have earlier: "assemble api self s =
      (Inl (NotImplementedError (''Unknown VAT: '' @ str_int (vat_percentage p))), ?s2)"
    if pre_split: "pre = pre1 @ p # pre2"
      and vat: "\<forall>q \<in> set pre1. vat_percentage q = 0 \<or> vat_percentage q = 21"
      and other: "vat_percentage p \<noteq> 0" "vat_percentage p \<noteq> 21"
    for pre1 p pre2
  proof -
    have split': "get_ledger_lines self = pre1 @ p # (pre2 @ l # post)"
      by (simp add: split pre_split)
    have pre1: "\<forall>q \<in> set pre1. code q \<in> account_Code ` set rs \<and>
        (vat_percentage q = 0 \<or> vat_percentage q = 21)"
      using pre_codes vat by (simp add: pre_split)
    have "code p \<in> account_Code ` set rs"
      using pre_codes by (simp add: pre_split)
    then obtain gid where "ledger_ids_of rs (code p) = Some gid"
      using ledger_ids_of_None [of rs "code p"] by auto
    from assemble_line_unknown_vat [where ids = "ledger_ids_of rs" and l = p, OF this other]
    show ?thesis
      by (rule assemble_first_bad_line [OF reached customer lookup split' pre1])
  qed
  have "\<exists>e. assemble api self s = (Inl e, ?s2)"
  proof (cases "\<forall>p \<in> set pre. vat_percentage p = 0 \<or> vat_percentage p = 21")
    case True
    from first [OF this] show ?thesis by blast
  next
    case False
    then have "\<exists>p \<in> set pre. \<not> (vat_percentage p = 0 \<or> vat_percentage p = 21)"
      by blast
    from split_list_first_prop [OF this] obtain pre1 p pre2 where
      "pre = pre1 @ p # pre2"
      and "\<not> (vat_percentage p = 0 \<or> vat_percentage p = 21)"
      and "\<forall>q \<in> set pre1. \<not> \<not> (vat_percentage q = 0 \<or> vat_percentage q = 21)"
      by blast
    then show ?thesis
      using earlier [of pre1 p pre2] by auto
  qed
  with first earlier show ?thesis
    by blast
qed

theorem absent_ledger_code_aborts_witness:
  "fst (assemble demo_api (demo_invoice [demo_line ''1234'' 21, demo_line ''9999'' 0])
          (demo_state (Some (PStr ''c-0'')) [])) =
     Inl (ExactOnlineError ''Cannot submit invoice with ledger code 9999'') \<and>
   fst (assemble demo_api (demo_invoice [demo_line ''1234'' 7, demo_line ''9999'' 0])
          (demo_state (Some (PStr ''c-0'')) [])) =
     Inl (NotImplementedError ''Unknown VAT: 7'')"
proof -
  let ?s = "demo_state (Some (PStr ''c-0'')) []"
  let ?I = "demo_invoice [demo_line ''1234'' 21, demo_line ''9999'' 0]"
  let ?J = "demo_invoice [demo_line ''1234'' 7, demo_line ''9999'' 0]"
  let ?rs = "[\<lparr>account_Code = ''1234'', account_ID = PStr ''g-1234''\<rparr>]"
  have lookup: "ledgeraccounts_filter demo_api (set (map code (get_ledger_lines (demo_invoice ls))))
      (remote \<lparr>remote = demo_world (Some (PStr ''c-0'')) [], trace = [Customer_get_guid]\<rparr>) =
      (Inr ?rs, demo_world (Some (PStr ''c-0'')) [])"
    if "ls = [demo_line ''1234'' p, demo_line ''9999'' 0]" for ls p
    using that by (simp add: demo_defs)
  have splitI: "get_ledger_lines ?I = [demo_line ''1234'' 21] @ demo_line ''9999'' 0 # []"
    and splitJ: "get_ledger_lines ?J = [demo_line ''1234'' 7] @ demo_line ''9999'' 0 # []"
    by (simp_all add: demo_invoice_def)
  have codes: "\<forall>q \<in> set [demo_line ''1234'' p]. code q \<in> account_Code ` set ?rs"
    and absent: "code (demo_line ''9999'' 0) \<notin> account_Code ` set ?rs" for p
    by (simp_all add: demo_line_def)
  have vat: "\<forall>q \<in> set [demo_line ''1234'' 21]. vat_percentage q = 0 \<or> vat_percentage q = 21"
    by (simp add: demo_line_def)
  have bad: "[demo_line ''1234'' 7] = [] @ demo_line ''1234'' 7 # [] \<and>
      (\<forall>q \<in> set []. vat_percentage q = 0 \<or> vat_percentage q = 21) \<and>
      vat_percentage (demo_line ''1234'' 7) \<noteq> 0 \<and> vat_percentage (demo_line ''1234'' 7) \<noteq> 21"
    by (simp add: demo_line_def)
  note a =
    absent_ledger_code_aborts [OF demo_reached demo_customer_found lookup [OF refl] splitI codes absent,
      THEN conjunct2, THEN conjunct1, THEN mp, OF vat]
  note b =
    absent_ledger_code_aborts [OF demo_reached demo_customer_found lookup [OF refl] splitJ codes absent,
      THEN conjunct2, THEN conjunct2, THEN spec, THEN spec, THEN spec, THEN mp, OF bad]
  from a b show ?thesis
    by (simp add: demo_line_def str_int_def digits.simps digit_char_def)
qed

subsection \<open>The entry date\<close>

text \<open>
  \<^bold>\<open>C6.\<close> In a payload, \<^verbatim>\<open>EntryDate\<close> is the date of creation written as the
  ISO-8601 timestamp of that day at 00:00:00 with the literal suffix \<^verbatim>\<open>Z\<close> (a date
  carries no time zone), and \<^verbatim>\<open>ReportingPeriod\<close> and \<^verbatim>\<open>ReportingYear\<close> are the month
  and the year of that date.
\<close>

theorem entry_date_is_midnight_utc:
  assumes ok: "assemble api self s = (Inr data, s')"
    and valid: "valid_date (get_created_date self)"
  shows "\<exists>entry_date.
           data ''EntryDate'' = Some (PStr entry_date) \<and>
           iso_midnight_z (get_created_date self) entry_date \<and>
           data ''ReportingPeriod'' = Some (PInt (int (month (get_created_date self)))) \<and>
           data ''ReportingYear'' = Some (PInt (int (year (get_created_date self))))"
proof -
  let ?d = "get_created_date self"
  let ?y = "zfill 4 (digits (year ?d))"
  let ?m = "zfill 2 (digits (month ?d))"
  let ?dd = "zfill 2 (digits (day ?d))"
  have "1900 \<le> year ?d"
    using assemble_InrD [OF ok] by blast
  moreover have "year ?d \<le> 9999" "month ?d \<le> 12" "day ?d \<le> 31"
    using valid days_in_month_le [of "year ?d" "month ?d"]
    by (simp_all add: valid_date_def)
  ultimately have len: "length ?y = 4" "length ?m = 2" "length ?dd = 2"
    by (simp_all add: length_zfill length_digits_4 length_digits_le2)
  have "iso_midnight_z ?d (?y @ ''-'' @ ?m @ ''-'' @ ?dd @ ''T00:00:00Z'')"
    by (rule iso_midnight_z_parts [OF len]) (simp_all add: zfill_all_digit nat_of_digits_zfill)
  then have "iso_midnight_z ?d (expand_format ?d ''%Y-%m-%dT%H:%M:%SZ'')"
    by (simp only: expand_iso_format)
  with assemble_dates [OF ok] show ?thesis
    by blast
qed

theorem entry_date_is_midnight_utc_witness:
  "\<exists>data s'.
     assemble demo_api (demo_invoice []) (demo_state None []) = (Inr data, s') \<and>
     valid_date (get_created_date (demo_invoice [])) \<and>
     data ''EntryDate'' = Some (PStr ''2024-03-15T00:00:00Z'') \<and>
     iso_midnight_z \<lparr>year = 2024, month = 3, day = 15\<rparr> ''2024-03-15T00:00:00Z'' \<and>
     data ''ReportingPeriod'' = Some (PInt 3) \<and>
     data ''ReportingYear'' = Some (PInt 2024)"
proof -
  let ?I = "demo_invoice [] :: world invoice"
  have "\<exists>data s'. assemble demo_api ?I (demo_state None []) = (Inr data, s')"
    by (simp add: run_defs demo_defs)
  then obtain data s' where ok: "assemble demo_api ?I (demo_state None []) = (Inr data, s')"
    by blast
  have valid: "valid_date (get_created_date ?I)"
    by (simp add: demo_defs valid_date_def days_in_month_def)
  have date: "get_created_date ?I = \<lparr>year = 2024, month = 3, day = 15\<rparr>"
    by (simp add: demo_defs)
  have str: "expand_format \<lparr>year = 2024, month = 3, day = 15\<rparr> ''%Y-%m-%dT%H:%M:%SZ'' =
      ''2024-03-15T00:00:00Z''"
    by (simp add: directive_def zfill_def digits.simps digit_char_def)
  from entry_date_is_midnight_utc [OF ok valid] obtain entry_date where
    e: "data ''EntryDate'' = Some (PStr entry_date)"
      "iso_midnight_z (get_created_date ?I) entry_date"
      "data ''ReportingPeriod'' = Some (PInt (int (month (get_created_date ?I))))"
      "data ''ReportingYear'' = Some (PInt (int (year (get_created_date ?I))))"
    by blast
  have "data ''EntryDate'' = Some (PStr ''2024-03-15T00:00:00Z'')"
    using assemble_dates(1) [OF ok] unfolding date str .
  with e(1) have "entry_date = ''2024-03-15T00:00:00Z''"
    by simp
  with e ok valid show ?thesis
    by (simp add: date)
qed

subsection \<open>The amounts\<close>

text \<open>
  \<^bold>\<open>C5.\<close> In a payload, \<^verbatim>\<open>AmountDC\<close>, \<^verbatim>\<open>AmountFC\<close>, \<^verbatim>\<open>VATAmountDC\<close>,
  \<^verbatim>\<open>VATAmountFC\<close> and the \<^verbatim>\<open>AmountDC\<close> and \<^verbatim>\<open>AmountFC\<close> of every entry are
  strings, each the \<^verbatim>\<open>str\<close> of its decimal input, and exact: read back as a decimal
  numeral, the string gives the input again, sign, coefficient and exponent. No other
  conversion stands between the input and the string.
\<close>

theorem monetary_fields_exact:
  assumes ok: "assemble api self s = (Inr data, s')"
  shows "exact_decimal_string (data ''AmountDC'') (get_total_amount_incl_vat self) \<and>
         exact_decimal_string (data ''AmountFC'') (get_total_amount_incl_vat self) \<and>
         exact_decimal_string (data ''VATAmountDC'') (get_total_vat self) \<and>
         exact_decimal_string (data ''VATAmountFC'') (get_total_vat self) \<and>
         (\<exists>entries.
            data ''SalesEntryLines'' = Some (PList (map PDict entries)) \<and>
            length entries = length (get_ledger_lines self) \<and>
            (\<forall>i < length (get_ledger_lines self).
               exact_decimal_string ((entries ! i) ''AmountDC'')
                 (total_amount_excl_vat (get_ledger_lines self ! i)) \<and>
               exact_decimal_string ((entries ! i) ''AmountFC'')
                 (total_amount_excl_vat (get_ledger_lines self ! i))))"
proof -
  from assemble_entries [OF ok] obtain ids entries where
    data: "data ''SalesEntryLines'' = Some (PList (map PDict entries))"
    and all2: "list_all2 (\<lambda>l e. assemble_line ids l = Inr e) (get_ledger_lines self) entries"
    by blast
  have len: "length entries = length (get_ledger_lines self)"
    using all2 by (simp add: list_all2_lengthD)
  have lines: "\<forall>i < length (get_ledger_lines self).
      exact_decimal_string ((entries ! i) ''AmountDC'')
        (total_amount_excl_vat (get_ledger_lines self ! i)) \<and>
      exact_decimal_string ((entries ! i) ''AmountFC'')
        (total_amount_excl_vat (get_ledger_lines self ! i))"
  proof (intro allI impI)
    fix i
    assume "i < length (get_ledger_lines self)"
    from assemble_line_fields(1,2) [OF list_all2_nthD [OF all2 this]]
    show "exact_decimal_string ((entries ! i) ''AmountDC'')
        (total_amount_excl_vat (get_ledger_lines self ! i)) \<and>
      exact_decimal_string ((entries ! i) ''AmountFC'')
        (total_amount_excl_vat (get_ledger_lines self ! i))"
      by (simp add: exact_decimal_string_str)
  qed
  have top: "exact_decimal_string (data ''AmountDC'') (get_total_amount_incl_vat self)"
    "exact_decimal_string (data ''AmountFC'') (get_total_amount_incl_vat self)"
    "exact_decimal_string (data ''VATAmountDC'') (get_total_vat self)"
    "exact_decimal_string (data ''VATAmountFC'') (get_total_vat self)"
    by (simp_all add: assemble_amounts [OF ok] exact_decimal_string_str)
  from top data len lines show ?thesis
    by blast
qed

theorem monetary_fields_exact_witness:
  "\<exists>data s'.
     assemble demo_api (demo_invoice [demo_line ''1234'' 21]) (demo_state None []) =
       (Inr data, s') \<and>
     data ''AmountDC'' = Some (PStr ''121.00'') \<and>
     read_decimal ''121.00'' = Some (Decimal False 12100 (- 2)) \<and>
     data ''VATAmountFC'' = Some (PStr ''21.00'') \<and>
     read_decimal ''21.00'' = Some (Decimal False 2100 (- 2)) \<and>
     (\<exists>entries.
        data ''SalesEntryLines'' = Some (PList (map PDict entries)) \<and>
        (entries ! 0) ''AmountFC'' = Some (PStr ''100.00'') \<and>
        read_decimal ''100.00'' = Some (Decimal False 10000 (- 2)))"
proof -
  let ?I = "demo_invoice [demo_line ''1234'' 21]"
  have "\<exists>data s'. assemble demo_api ?I (demo_state None []) = (Inr data, s')"
    by (simp add: run_defs demo_defs)
  then obtain data s' where ok: "assemble demo_api ?I (demo_state None []) = (Inr data, s')"
    by blast
  have strs: "str_decimal (Decimal False 12100 (- 2)) = ''121.00''"
    "str_decimal (Decimal False 2100 (- 2)) = ''21.00''"
    "str_decimal (Decimal False 10000 (- 2)) = ''100.00''"
    by (simp_all add: str_decimal_def digits.simps digit_char_def Let_def)
  have exact: "v = Some (PStr s) \<and> read_decimal s = Some d"
    if "exact_decimal_string v d" and "str_decimal d = s" for v d s
    using that by (auto simp: exact_decimal_string_def split: option.splits pyval.splits)
  from monetary_fields_exact [OF ok] obtain entries where
    e: "exact_decimal_string (data ''AmountDC'') (get_total_amount_incl_vat ?I)"
      "exact_decimal_string (data ''VATAmountFC'') (get_total_vat ?I)"
      "data ''SalesEntryLines'' = Some (PList (map PDict entries))"
      "\<forall>i < length (get_ledger_lines ?I).
         exact_decimal_string ((entries ! i) ''AmountDC'')
           (total_amount_excl_vat (get_ledger_lines ?I ! i)) \<and>
         exact_decimal_string ((entries ! i) ''AmountFC'')
           (total_amount_excl_vat (get_ledger_lines ?I ! i))"
    by blast
  have line: "exact_decimal_string ((entries ! 0) ''AmountFC'') (Decimal False 10000 (- 2))"
    using e(4) [rule_format, of 0] by (simp add: demo_defs)
  have a: "data ''AmountDC'' = Some (PStr ''121.00'') \<and>
      read_decimal ''121.00'' = Some (Decimal False 12100 (- 2))"
    using e(1) by (intro exact) (simp_all add: demo_defs strs)
  have b: "data ''VATAmountFC'' = Some (PStr ''21.00'') \<and>
      read_decimal ''21.00'' = Some (Decimal False 2100 (- 2))"
    using e(2) by (intro exact) (simp_all add: demo_defs strs)
  have c: "(entries ! 0) ''AmountFC'' = Some (PStr ''100.00'') \<and>
      read_decimal ''100.00'' = Some (Decimal False 10000 (- 2))"
    using line by (intro exact) (simp_all add: strs)
  from ok a b c e(3) show ?thesis
    by blast
qed

end
